theory Spec2Isabelle
  imports Complex_Main "HOL-Library.Multiset"
begin

section \<open>Double arithmetic\<close>

text \<open>
  Arithmetic on doubles rounds. \<open>binary64\<close> rounds a real to the nearest double, ties
  to the even significand: 53 significant bits from the exponent \<open>ilog2\<close> of the value,
  and the fixed spacing \<open>2 powi (- 1074)\<close> below \<open>2 powi (- 1022)\<close>. A \<open>jsnum\<close> is a
  finite double (its exact value), an infinity or \<open>NaN\<close>; the sign of zero is not kept.
  \<open>toNumber\<close> is the rounding with the overflow to an infinity.
\<close>

fun bitLength :: "nat \<Rightarrow> nat" where
  "bitLength n = (if n = 0 then 0 else Suc (bitLength (n div 2)))"

declare bitLength.simps [simp del]

text \<open>For \<open>0 < x\<close>, \<open>ilog2 x\<close> is the integer \<open>e\<close> with \<open>2 powi e \<le> x < 2 powi (e + 1)\<close>.\<close>

definition ilog2 :: "rat \<Rightarrow> int" where
  "ilog2 x = (if 1 \<le> x then int (bitLength (nat \<lfloor>x\<rfloor>)) - 1
              else - int (bitLength (nat (\<lceil>1 / x\<rceil> - 1))))"

definition roundTiesToEven :: "rat \<Rightarrow> int" where
  "roundTiesToEven y =
     (let f = \<lfloor>y\<rfloor>; r = y - of_int f
      in if r < 1 / 2 then f else if 1 / 2 < r then f + 1 else if even f then f else f + 1)"

definition binary64 :: "rat \<Rightarrow> rat" where
  "binary64 x =
     (if x = 0 then 0
      else let e = max (ilog2 \<bar>x\<bar>) (- 1022); u = 2 powi (e - 52)
           in of_int (roundTiesToEven (x / u)) * u)"

datatype jsnum = Fin rat | PosInf | NegInf | NaN

definition toNumber :: "rat \<Rightarrow> jsnum" where
  "toNumber x =
     (let r = binary64 x
      in if 2 ^ 1024 \<le> \<bar>r\<bar> then (if 0 < r then PosInf else NegInf) else Fin r)"

fun js_sign :: "jsnum \<Rightarrow> int" where
  "js_sign (Fin a) = (if a < 0 then - 1 else if 0 < a then 1 else 0)"
| "js_sign PosInf = 1"
| "js_sign NegInf = - 1"
| "js_sign NaN = 0"

fun js_mul :: "jsnum \<Rightarrow> jsnum \<Rightarrow> jsnum" where
  "js_mul (Fin a) (Fin b) = toNumber (a * b)"
| "js_mul NaN y = NaN"
| "js_mul x NaN = NaN"
| "js_mul x y =
     (if js_sign x * js_sign y = 0 then NaN
      else if 0 < js_sign x * js_sign y then PosInf else NegInf)"

fun js_div :: "jsnum \<Rightarrow> jsnum \<Rightarrow> jsnum" where
  "js_div (Fin a) (Fin b) =
     (if b = 0 then (if a = 0 then NaN else if 0 < a then PosInf else NegInf)
      else toNumber (a / b))"
| "js_div NaN y = NaN"
| "js_div x NaN = NaN"
| "js_div (Fin a) y = Fin 0"
| "js_div x (Fin b) = (if (0 \<le> b) = (x = PosInf) then PosInf else NegInf)"
| "js_div x y = NaN"

fun js_sub :: "jsnum \<Rightarrow> jsnum \<Rightarrow> jsnum" where
  "js_sub (Fin a) (Fin b) = toNumber (a - b)"
| "js_sub NaN y = NaN"
| "js_sub x NaN = NaN"
| "js_sub (Fin a) PosInf = NegInf"
| "js_sub (Fin a) NegInf = PosInf"
| "js_sub PosInf PosInf = NaN"
| "js_sub NegInf NegInf = NaN"
| "js_sub PosInf y = PosInf"
| "js_sub NegInf y = NegInf"

text \<open>\<^verbatim>\<open>Math.round\<close>: the nearest integer, a tie going up.\<close>

fun Math_round :: "jsnum \<Rightarrow> jsnum" where
  "Math_round (Fin x) = Fin (of_int \<lfloor>x + 1 / 2\<rfloor>)"
| "Math_round v = v"

definition isNaN :: "jsnum \<Rightarrow> bool" where
  "isNaN v = (v = NaN)"

text \<open>
  The comparisons \<^verbatim>\<open><\<close>, \<^verbatim>\<open><=\<close> and \<^verbatim>\<open>>=\<close>: each is false when an operand is \<open>NaN\<close>.
\<close>

fun js_lt :: "jsnum \<Rightarrow> jsnum \<Rightarrow> bool" where
  "js_lt (Fin a) (Fin b) = (a < b)"
| "js_lt NaN y = False"
| "js_lt x NaN = False"
| "js_lt NegInf y = (y \<noteq> NegInf)"
| "js_lt x PosInf = (x \<noteq> PosInf)"
| "js_lt x y = False"

fun js_le :: "jsnum \<Rightarrow> jsnum \<Rightarrow> bool" where
  "js_le (Fin a) (Fin b) = (a \<le> b)"
| "js_le NaN y = False"
| "js_le x NaN = False"
| "js_le NegInf y = True"
| "js_le x PosInf = True"
| "js_le x y = False"

definition js_ge :: "jsnum \<Rightarrow> jsnum \<Rightarrow> bool" where
  "js_ge x y = js_le y x"

fun js_add :: "jsnum \<Rightarrow> jsnum \<Rightarrow> jsnum" where
  "js_add (Fin a) (Fin b) = toNumber (a + b)"
| "js_add NaN y = NaN"
| "js_add x NaN = NaN"
| "js_add PosInf NegInf = NaN"
| "js_add NegInf PosInf = NaN"
| "js_add PosInf y = PosInf"
| "js_add NegInf y = NegInf"
| "js_add x PosInf = PosInf"
| "js_add x NegInf = NegInf"

text \<open>\<^verbatim>\<open>Math.max\<close> of two numbers: \<open>NaN\<close> when either is.\<close>

fun Math_max :: "jsnum \<Rightarrow> jsnum \<Rightarrow> jsnum" where
  "Math_max (Fin a) (Fin b) = Fin (max a b)"
| "Math_max NaN y = NaN"
| "Math_max x NaN = NaN"
| "Math_max PosInf y = PosInf"
| "Math_max x PosInf = PosInf"
| "Math_max NegInf y = y"
| "Math_max x NegInf = x"

text \<open>\<^verbatim>\<open>Number.isInteger\<close>: false on \<open>NaN\<close> and on the infinities.\<close>

fun Number_isInteger :: "jsnum \<Rightarrow> bool" where
  "Number_isInteger (Fin x) = (x = of_int \<lfloor>x\<rfloor>)"
| "Number_isInteger v = False"

section \<open>Data model of \<open>src/lib/auction-utils.ts\<close>\<close>

text \<open>
  The numbers of an auction state and the amount handed to \<open>validateBid\<close> are values
  of \<open>jsnum\<close>: any double, \<open>NaN\<close> and the infinities included. The amount of a bid
  record is a finite number, modelled by its exact value: \<open>getWinningBid\<close> sorts the bids
  by amount, and with a \<open>NaN\<close> amount the comparator is not a consistent one, for which
  the language leaves the order of the sorted array to the implementation. A \<open>Date\<close> is
  its time value, the integer count of milliseconds since the epoch.
\<close>

type_synonym number = rat

datatype AuctionStatus = Open | Closed

record Bid =
  bidId :: string
  bidLotId :: string
  buyerId :: string
  bidAmountCents :: number
  timestamp :: int
  isWinning :: "bool option"

record AuctionState =
  lotId :: string
  status :: AuctionStatus
  startTime :: int
  endTime :: int
  minimumBidCents :: jsnum
  bidIncrementCents :: jsnum
  currentHighestBidCents :: jsnum
  totalBids :: jsnum
  bids :: "Bid list"

text \<open>
  The reasons \<open>validateBid\<close> returns in its \<open>error\<close> field. The source builds strings:
  \<^item> \<open>NotActive\<close>: \<^verbatim>\<open>Auction is not currently active\<close>;
  \<^item> \<open>BelowMinimum m\<close>: \<^verbatim>\<open>Bid must be at least $X\<close>, with \<open>X\<close> the rendering
    \<^verbatim>\<open>(m / 100).toFixed(2)\<close> of \<open>m = minimumBidCents\<close>;
  \<^item> \<open>BelowIncrement r\<close>: \<^verbatim>\<open>Bid must be at least $X (current high + increment)\<close>,
    with \<open>X\<close> the rendering of \<open>r = requiredMinimum\<close>;
  \<^item> \<open>InvalidAmount\<close>: \<^verbatim>\<open>Invalid bid amount\<close>.
  The datatype keeps the number each message reports, in centavos.
\<close>

datatype BidError =
    NotActive
  | BelowMinimum jsnum
  | BelowIncrement jsnum
  | InvalidAmount

section \<open>Auction activity\<close>

text \<open>
  \<open>isAuctionActive\<close> reads the clock with \<^verbatim>\<open>new Date()\<close>; the instant read is the
  first argument of the model.
\<close>

definition isAuctionActive :: "int \<Rightarrow> AuctionState \<Rightarrow> bool" where
  "isAuctionActive now auction =
     (status auction = Open \<and> now \<ge> startTime auction \<and> now \<le> endTime auction)"

section \<open>Bid validation\<close>

text \<open>\<^verbatim>\<open>auction.currentHighestBidCents + auction.bidIncrementCents\<close>, a double sum.\<close>

definition requiredMinimum :: "AuctionState \<Rightarrow> jsnum" where
  "requiredMinimum auction =
     js_add (currentHighestBidCents auction) (bidIncrementCents auction)"

text \<open>
  The result \<^verbatim>\<open>{ success: true }\<close> is \<open>Inr ()\<close>; \<^verbatim>\<open>{ success: false, error }\<close> is
  \<open>Inl\<close> of the reason. The second and third check reject with \<^verbatim>\<open><\<close>.
\<close>

definition validateBid :: "int \<Rightarrow> AuctionState \<Rightarrow> jsnum \<Rightarrow> BidError + unit" where
  "validateBid now auction bidAmount =
     (if \<not> isAuctionActive now auction then Inl NotActive
      else if js_lt bidAmount (minimumBidCents auction)
        then Inl (BelowMinimum (minimumBidCents auction))
      else if js_lt bidAmount (requiredMinimum auction)
        then Inl (BelowIncrement (requiredMinimum auction))
      else if \<not> Number_isInteger bidAmount \<or> js_le bidAmount (Fin 0)
        then Inl InvalidAmount
      else Inr ())"

section \<open>Winner resolution\<close>

text \<open>
  The comparator handed to \<^verbatim>\<open>Array.prototype.sort\<close>: a negative result puts \<open>a\<close>
  first, a positive one puts \<open>b\<close> first. Only the sign of the result is used, and the
  rounded difference of two doubles has the sign of their exact difference, which the
  model returns.
\<close>

definition compareBids :: "Bid \<Rightarrow> Bid \<Rightarrow> number" where
  "compareBids a b =
     (if bidAmountCents a \<noteq> bidAmountCents b
      then bidAmountCents b - bidAmountCents a
      else of_int (timestamp a - timestamp b))"

text \<open>
  \<^verbatim>\<open>Array.prototype.sort\<close> is a stable sort. The model is the stable insertion sort:
  an element goes in front of the first one it does not have to follow.
\<close>

fun insertBy :: "('a \<Rightarrow> 'a \<Rightarrow> number) \<Rightarrow> 'a \<Rightarrow> 'a list \<Rightarrow> 'a list" where
  "insertBy cmp x [] = [x]"
| "insertBy cmp x (y # ys) =
     (if cmp x y \<le> 0 then x # y # ys else y # insertBy cmp x ys)"

fun sortBy :: "('a \<Rightarrow> 'a \<Rightarrow> number) \<Rightarrow> 'a list \<Rightarrow> 'a list" where
  "sortBy cmp [] = []"
| "sortBy cmp (x # xs) = insertBy cmp x (sortBy cmp xs)"

definition getWinningBid :: "AuctionState \<Rightarrow> Bid option" where
  "getWinningBid auction =
     (if length (bids auction) = 0 then None
      else Some (hd (sortBy compareBids (bids auction))))"

text \<open>
  The specification's winner, in its words: a bid of maximal amount and, among the bids
  of that amount, of earliest timestamp. The amounts and timestamps distinguish a unique
  winner when no two different bids of the list are both such a bid.
\<close>

definition isBestBid :: "Bid list \<Rightarrow> Bid \<Rightarrow> bool" where
  "isBestBid bs w =
     (w \<in> set bs \<and>
      (\<forall>c \<in> set bs. bidAmountCents c \<le> bidAmountCents w \<and>
         (bidAmountCents c = bidAmountCents w \<longrightarrow> timestamp w \<le> timestamp c)))"

definition uniqueWinner :: "Bid list \<Rightarrow> bool" where
  "uniqueWinner bs = (\<forall>w \<in> set bs. \<forall>v \<in> set bs. isBestBid bs w \<and> isBestBid bs v \<longrightarrow> w = v)"

section \<open>Closure\<close>

record ClosureResult =
  success :: bool
  winningBid :: "Bid option"
  finalStatus :: AuctionStatus
  closureTotalBids :: jsnum
  error :: "string option"

definition closeAuction :: "AuctionState \<Rightarrow> ClosureResult" where
  "closeAuction auction =
     (if status auction = Closed
      then \<lparr>success = False, winningBid = None, finalStatus = Closed,
            closureTotalBids = totalBids auction,
            error = Some ''Auction is already closed''\<rparr>
      else \<lparr>success = True, winningBid = getWinningBid auction, finalStatus = Closed,
            closureTotalBids = Fin (of_nat (length (bids auction))),
            error = None\<rparr>)"

section \<open>Adding a bid\<close>

text \<open>
  \<^verbatim>\<open>throw new Error(validation.error)\<close> is \<open>Inl\<close> of the reason; the returned state
  is \<open>Inr\<close>.
\<close>

definition addBidToAuction :: "int \<Rightarrow> AuctionState \<Rightarrow> Bid \<Rightarrow> BidError + AuctionState" where
  "addBidToAuction now auction bid =
     (case validateBid now auction (Fin (bidAmountCents bid)) of
        Inl reason \<Rightarrow> Inl reason
      | Inr _ \<Rightarrow>
          (let updatedBids = bids auction @ [bid];
               newHighestBid =
                 Math_max (currentHighestBidCents auction) (Fin (bidAmountCents bid))
           in Inr (auction\<lparr>bids := updatedBids,
                            currentHighestBidCents := newHighestBid,
                            totalBids := Fin (of_nat (length updatedBids))\<rparr>)))"

section \<open>The invariant of the auction state\<close>

text \<open>
  The specification's invariant of \<open>AuctionState\<close>, in its words: the current highest
  bid is the maximum amount among the contained bids, or zero when there is none, and
  \<open>totalBids\<close> is the size of the bid collection.
\<close>

definition highestAmount :: "Bid list \<Rightarrow> number" where
  "highestAmount bs = (if bs = [] then 0 else Max (set (map bidAmountCents bs)))"

definition auctionInvariant :: "AuctionState \<Rightarrow> bool" where
  "auctionInvariant auction =
     (currentHighestBidCents auction = Fin (highestAmount (bids auction))
      \<and> totalBids auction = Fin (of_nat (length (bids auction))))"

section \<open>Money utilities\<close>

text \<open>The literal \<^verbatim>\<open>0.06\<close> is the double nearest to 6/100.\<close>

definition literal_0_06 :: jsnum where
  "literal_0_06 = toNumber (6 / 100)"

definition pesosTocentavos :: "jsnum \<Rightarrow> jsnum" where
  "pesosTocentavos pesos = Math_round (js_mul pesos (Fin 100))"

definition centavosToPesos :: "jsnum \<Rightarrow> jsnum" where
  "centavosToPesos centavos = js_div centavos (Fin 100)"

definition calculateCommission :: "jsnum \<Rightarrow> jsnum" where
  "calculateCommission grossAmountCents =
     (let commissionCents = Math_round (js_mul grossAmountCents literal_0_06)
      in commissionCents)"

definition calculateLaborFee :: jsnum where
  "calculateLaborFee = (let laborFeeCents = Fin 2500 in laborFeeCents)"

record Settlement =
  grossAmount :: jsnum
  commissionCents :: jsnum
  laborFeeCents :: jsnum
  netToSupplierCents :: jsnum
  commissionRate :: jsnum
  laborFeeFixed :: jsnum

definition calculateSettlement :: "jsnum \<Rightarrow> Settlement" where
  "calculateSettlement winningBidCents =
     (let commission = Math_round (js_mul winningBidCents literal_0_06);
          laborFee = Fin 2500;
          netToSupplier = js_sub (js_sub winningBidCents commission) laborFee
      in \<lparr>grossAmount = winningBidCents, commissionCents = commission,
          laborFeeCents = laborFee, netToSupplierCents = netToSupplier,
          commissionRate = literal_0_06, laborFeeFixed = Fin 25\<rparr>)"

section \<open>Parsing a money string\<close>

text \<open>
  A string is its sequence of UTF-16 code units. \<open>ascii\<close> reads the code units of a
  literal of 7-bit characters; the peso sign is the code unit 8369 (U+20B1).
\<close>

type_synonym jsstring = "nat list"

definition ascii :: "string \<Rightarrow> jsstring" where
  "ascii s = map of_char s"

text \<open>The class \<^verbatim>\<open>\s\<close> of a regular expression: white space and line terminators.\<close>

definition isWhiteSpace :: "nat \<Rightarrow> bool" where
  "isWhiteSpace c =
     (c \<in> {9, 10, 11, 12, 13, 32, 160, 5760, 8232, 8233, 8239, 8287, 12288, 65279}
      \<or> (8192 \<le> c \<and> c \<le> 8202))"

definition isDigit :: "nat \<Rightarrow> bool" where
  "isDigit c = (48 \<le> c \<and> c \<le> 57)"

definition digitsValue :: "jsstring \<Rightarrow> nat" where
  "digitsValue ds = foldl (\<lambda>a c. 10 * a + (c - 48)) 0 ds"

text \<open>\<^verbatim>\<open>moneyString.replace(/[\<dots>,\s]/g, '')\<close>, the class holding the peso sign.\<close>

definition cleanString :: "jsstring \<Rightarrow> jsstring" where
  "cleanString moneyString =
     filter (\<lambda>c. \<not> (c = 8369 \<or> c = 44 \<or> isWhiteSpace c)) moneyString"

text \<open>
  \<^verbatim>\<open>parseFloat\<close> skips leading white space and reads the longest prefix that is a
  \<open>StrDecimalLiteral\<close>: a sign if any, then \<^verbatim>\<open>Infinity\<close>, or digits with an optional
  point and fraction, or a point and a fraction, and then an exponent if one is
  complete. \<open>strDecimalLiteral\<close> returns the number of that prefix and the rest of the
  string, and nothing when no prefix is such a literal; \<open>parseFloat\<close> is then \<open>NaN\<close>.
\<close>

definition takeSign :: "jsstring \<Rightarrow> bool \<times> jsstring" where
  "takeSign t =
     (case t of
        [] \<Rightarrow> (False, [])
      | c # u \<Rightarrow> if c = 43 then (False, u) else if c = 45 then (True, u) else (False, t))"

definition exponentPart :: "jsstring \<Rightarrow> int \<times> jsstring" where
  "exponentPart r =
     (case r of
        [] \<Rightarrow> (0, r)
      | c # r' \<Rightarrow>
          if c = 101 \<or> c = 69
          then (let (eneg, r'') = takeSign r'; ed = takeWhile isDigit r''
                in if ed = [] then (0, r)
                   else (if eneg then - int (digitsValue ed) else int (digitsValue ed),
                         dropWhile isDigit r''))
          else (0, r))"

definition strDecimalLiteral :: "jsstring \<Rightarrow> (jsnum \<times> jsstring) option" where
  "strDecimalLiteral t =
     (let (neg, u) = takeSign t
      in if take 8 u = ascii ''Infinity''
         then Some (if neg then NegInf else PosInf, drop 8 u)
         else
           (let ip = takeWhile isDigit u;
                r1 = dropWhile isDigit u;
                hasDot = (r1 \<noteq> [] \<and> hd r1 = 46);
                fp = (if hasDot then takeWhile isDigit (tl r1) else []);
                r2 = (if hasDot then dropWhile isDigit (tl r1) else r1)
            in if ip = [] \<and> fp = [] then None
               else
                 (let (ex, r3) = exponentPart r2;
                      mv = (of_nat (digitsValue ip)
                            + of_nat (digitsValue fp) / 10 ^ length fp) * 10 powi ex
                  in Some (toNumber (if neg then - mv else mv), r3))))"

definition parseFloat :: "jsstring \<Rightarrow> jsnum" where
  "parseFloat s =
     (case strDecimalLiteral (dropWhile isWhiteSpace s) of
        None \<Rightarrow> NaN
      | Some (v, rest) \<Rightarrow> v)"

datatype MoneyError = InvalidMoneyFormat

text \<open>\<^verbatim>\<open>throw new Error('Invalid money format')\<close> is \<open>Inl InvalidMoneyFormat\<close>.\<close>

definition parseMoneyString :: "jsstring \<Rightarrow> MoneyError + jsnum" where
  "parseMoneyString moneyString =
     (let clean = cleanString moneyString;
          pesos = parseFloat clean
      in if isNaN pesos then Inl InvalidMoneyFormat else Inr (pesosTocentavos pesos))"

text \<open>
  The two readings of "the text parses as a number": the whole text is a decimal
  literal, or the text begins with one.
\<close>

definition isNumberText :: "jsstring \<Rightarrow> bool" where
  "isNumberText t = (case strDecimalLiteral t of None \<Rightarrow> False | Some (v, rest) \<Rightarrow> rest = [])"

definition startsWithNumber :: "jsstring \<Rightarrow> bool" where
  "startsWithNumber t =
     (let u = snd (takeSign t)
      in take 8 u = ascii ''Infinity''
         \<or> (case u of
               [] \<Rightarrow> False
             | c # r \<Rightarrow> isDigit c \<or> (c = 46 \<and> (case r of [] \<Rightarrow> False | c' # r' \<Rightarrow> isDigit c'))))"

section \<open>Fixtures of the test suite\<close>

text \<open>
  \<open>mockAuction\<close> and the bid of \<^verbatim>\<open>should add valid bid to auction\<close>, with the clock
  at \<open>t\<close>: the auction opens at \<open>t\<close> and ends an hour later.
\<close>

definition mockAuction :: "int \<Rightarrow> AuctionState" where
  "mockAuction t =
     \<lparr>lotId = ''lot-1'', status = Open, startTime = t, endTime = t + 60 * 60 * 1000,
      minimumBidCents = Fin 10000, bidIncrementCents = Fin 500,
      currentHighestBidCents = Fin 12000, totalBids = Fin 1, bids = []\<rparr>"

definition validBid :: "int \<Rightarrow> Bid" where
  "validBid t =
     \<lparr>bidId = ''bid-new'', bidLotId = ''lot-1'', buyerId = ''buyer-1'',
      bidAmountCents = 13000, timestamp = t, isWinning = None\<rparr>"

text \<open>
  The two bids of the test \<^verbatim>\<open>should return earliest bid in case of tie\<close>: the same
  amount, \<open>tieBid1\<close> a second before \<open>tieBid2\<close>.
\<close>

definition tieBid1 :: "int \<Rightarrow> Bid" where
  "tieBid1 t =
     \<lparr>bidId = ''bid-1'', bidLotId = ''lot-1'', buyerId = ''buyer-1'',
      bidAmountCents = 15000, timestamp = t - 1000, isWinning = None\<rparr>"

definition tieBid2 :: "int \<Rightarrow> Bid" where
  "tieBid2 t =
     \<lparr>bidId = ''bid-2'', bidLotId = ''lot-1'', buyerId = ''buyer-2'',
      bidAmountCents = 15000, timestamp = t, isWinning = None\<rparr>"

text \<open>
  An auction whose current highest bid is \<open>2 ^ 53\<close>, with increment 1: the sum of the
  two is not a double.
\<close>

definition largeAuction :: "int \<Rightarrow> AuctionState" where
  "largeAuction t =
     (mockAuction t)\<lparr>currentHighestBidCents := Fin (2 ^ 53), bidIncrementCents := Fin 1\<rparr>"

section \<open>Rounding to a double\<close>

lemma bitLength_upper: "n < 2 ^ bitLength n"
proof (induction n rule: bitLength.induct)
  case (1 n)
  show ?case
  proof (cases "n = 0")
    case True
    then show ?thesis by (simp add: bitLength.simps)
  next
    case False
    with 1 have "n div 2 < 2 ^ bitLength (n div 2)" by simp
    then have "n < 2 * 2 ^ bitLength (n div 2)" by linarith
    with False show ?thesis by (subst bitLength.simps) simp
  qed
qed

lemma bitLength_lower: "0 < n \<Longrightarrow> 2 ^ (bitLength n - 1) \<le> n"
proof (induction n rule: bitLength.induct)
  case (1 n)
  then have n0: "n \<noteq> 0" by simp
  show ?case
  proof (cases "n div 2 = 0")
    case True
    with n0 have "bitLength n = 1" by (simp add: bitLength.simps [of n] bitLength.simps [of 0])
    with 1 show ?thesis by simp
  next
    case False
    with 1 n0 have ih: "2 ^ (bitLength (n div 2) - 1) \<le> n div 2" by simp
    from False have "0 < bitLength (n div 2)" by (simp add: bitLength.simps [of "n div 2"])
    then have "bitLength n - 1 = Suc (bitLength (n div 2) - 1)"
      using n0 by (simp add: bitLength.simps [of n])
    with ih show ?thesis by simp
  qed
qed

lemma bitLength_pos: "0 < n \<Longrightarrow> 0 < bitLength n"
  by (simp add: bitLength.simps [of n])

lemma ilog2_bounds:
  assumes "0 < x"
  shows "2 powi (ilog2 x) \<le> x \<and> x < 2 powi (ilog2 x + 1)"
proof (cases "1 \<le> x")
  case True
  define n where "n = nat \<lfloor>x\<rfloor>"
  define k where "k = bitLength n"
  from True have fl1: "1 \<le> \<lfloor>x\<rfloor>" by simp
  then have npos: "0 < n" by (simp add: n_def)
  then have kpos: "0 < k" by (simp add: k_def bitLength_pos)
  have il: "ilog2 x = int k - 1" using True by (simp add: ilog2_def n_def k_def)
  have nfl: "(of_nat n :: rat) = of_int \<lfloor>x\<rfloor>"
    unfolding n_def using fl1 by (simp only: of_nat_nat)
  have nx: "of_nat n \<le> x" unfolding nfl by (rule of_int_floor_le)
  have xn: "x < of_nat n + 1" unfolding nfl using floor_correct [of x] by simp
  have "2 ^ (k - 1) \<le> n"
    using bitLength_lower [OF npos] by (simp only: k_def)
  then have "(of_nat (2 ^ (k - 1)) :: rat) \<le> of_nat n" by (simp only: of_nat_le_iff)
  then have "(2::rat) ^ (k - 1) \<le> of_nat n" by simp
  with nx have lo: "(2::rat) ^ (k - 1) \<le> x" by linarith
  have "Suc n \<le> 2 ^ k" using bitLength_upper [of n] by (simp add: k_def)
  then have "(of_nat (Suc n) :: rat) \<le> of_nat (2 ^ k)" by (simp only: of_nat_le_iff)
  then have "(of_nat n + 1 :: rat) \<le> 2 ^ k" by simp
  with xn have hi: "x < 2 ^ k" by linarith
  have e1: "int k - 1 = int (k - 1)" using kpos by simp
  have a: "(2::rat) powi (int k - 1) = 2 ^ (k - 1)" unfolding e1 by (rule power_int_of_nat)
  have b: "(2::rat) powi (int k - 1 + 1) = 2 ^ k" by simp
  show ?thesis unfolding il a b using lo hi by simp
next
  case False
  with assms have x1: "x < 1" by simp
  define m where "m = \<lceil>1 / x\<rceil>"
  define k where "k = bitLength (nat (m - 1))"
  have inv1: "1 < 1 / x" using assms x1 by simp
  then have m2: "2 \<le> m" unfolding m_def by (simp add: le_ceiling_iff) 
  have il: "ilog2 x = - int k" using False by (simp add: ilog2_def m_def k_def)
  have mpos: "0 < nat (m - 1)" using m2 by simp
  have up: "nat (m - 1) < 2 ^ k" unfolding k_def by (rule bitLength_upper)
  then have "m - 1 < 2 ^ k" using m2 by (simp add: nat_less_iff)
  then have "m \<le> 2 ^ k" by simp
  then have "(of_int m :: rat) \<le> of_int (2 ^ k)" by (simp only: of_int_le_iff)
  then have "(of_int m :: rat) \<le> 2 ^ k" by simp
  moreover have "1 / x \<le> of_int m" unfolding m_def by (rule le_of_int_ceiling)
  ultimately have "1 / x \<le> 2 ^ k" by linarith
  then have lo: "1 / 2 ^ k \<le> x" using assms
    by (simp add: field_simps)
  have low: "2 ^ (k - 1) \<le> nat (m - 1)" unfolding k_def by (rule bitLength_lower [OF mpos])
  then have "2 ^ (k - 1) \<le> m - 1" using m2 by (simp add: le_nat_iff)
  then have "(of_int (2 ^ (k - 1)) :: rat) \<le> of_int (m - 1)" by (simp only: of_int_le_iff)
  then have "(2::rat) ^ (k - 1) \<le> of_int (m - 1)" by simp
  moreover have "of_int (m - 1) < 1 / x" unfolding m_def
    using ceiling_correct [of "1 / x"] by simp
  ultimately have "(2::rat) ^ (k - 1) < 1 / x" by linarith
  then have hi: "x < 1 / 2 ^ (k - 1)" using assms by (simp add: field_simps)
  have kpos: "0 < k" unfolding k_def using mpos by (rule bitLength_pos)
  have a: "(2::rat) powi (- int k) = 1 / 2 ^ k"
    by (simp add: power_int_minus field_simps)
  have b: "(2::rat) powi (- int k + 1) = 1 / 2 ^ (k - 1)"
  proof -
    have "- int k + 1 = - int (k - 1)" using kpos by simp
    then have "(2::rat) powi (- int k + 1) = 2 powi (- int (k - 1))" by (simp only:)
    also have "\<dots> = inverse (2 powi int (k - 1))" by (rule power_int_minus)
    also have "\<dots> = 1 / 2 ^ (k - 1)" by (simp only: power_int_of_nat inverse_eq_divide)
    finally show ?thesis .
  qed
  show ?thesis unfolding il a b using lo hi by simp
qed

lemma ilog2_unique:
  assumes "0 < x" and lo: "2 powi e \<le> x" and hi: "x < 2 powi (e + 1)"
  shows "ilog2 x = e"
proof (rule ccontr)
  assume ne: "ilog2 x \<noteq> e"
  from ilog2_bounds [OF assms(1)]
  have l: "2 powi (ilog2 x) \<le> x" and h: "x < 2 powi (ilog2 x + 1)" by simp_all
  show False
  proof (cases "ilog2 x < e")
    case True
    then have "(2::rat) powi (ilog2 x + 1) \<le> 2 powi e"
      by (intro power_int_increasing) simp_all
    with h lo show False by linarith
  next
    case False
    with ne have "e + 1 \<le> ilog2 x" by simp
    then have "(2::rat) powi (e + 1) \<le> 2 powi (ilog2 x)"
      by (intro power_int_increasing) simp_all
    with l hi show False by linarith
  qed
qed

lemma roundTiesToEven_error: "\<bar>of_int (roundTiesToEven y) - y\<bar> \<le> 1 / 2"
proof -
  define r where "r = y - of_int \<lfloor>y\<rfloor>"
  have r: "0 \<le> r" "r < 1" unfolding r_def by linarith+
  have y: "y = of_int \<lfloor>y\<rfloor> + r" by (simp add: r_def)
  have "roundTiesToEven y = \<lfloor>y\<rfloor> \<and> r \<le> 1 / 2
      \<or> roundTiesToEven y = \<lfloor>y\<rfloor> + 1 \<and> 1 / 2 \<le> r"
    unfolding roundTiesToEven_def Let_def r_def [symmetric] by auto
  then show ?thesis
  proof
    assume a: "roundTiesToEven y = \<lfloor>y\<rfloor> \<and> r \<le> 1 / 2"
    then have "of_int (roundTiesToEven y) - y = - r" using y by simp
    with a r show ?thesis by simp
  next
    assume a: "roundTiesToEven y = \<lfloor>y\<rfloor> + 1 \<and> 1 / 2 \<le> r"
    then have "of_int (roundTiesToEven y) - y = 1 - r" using y by simp
    with a r show ?thesis by simp
  qed
qed

lemma roundTiesToEven_of_int: "roundTiesToEven (of_int k) = k"
  by (simp add: roundTiesToEven_def)

lemma roundTiesToEven_nonneg: "0 \<le> y \<Longrightarrow> 0 \<le> roundTiesToEven y"
  by (auto simp: roundTiesToEven_def Let_def)

lemma binary64_eq:
  assumes "x \<noteq> 0" and "2 powi e \<le> \<bar>x\<bar>" and "\<bar>x\<bar> < 2 powi (e + 1)" and "- 1022 \<le> e"
  shows "binary64 x = of_int (roundTiesToEven (x / 2 powi (e - 52))) * 2 powi (e - 52)"
proof -
  from assms have "ilog2 \<bar>x\<bar> = e" by (intro ilog2_unique) simp_all
  with assms(1,4) show ?thesis by (simp add: binary64_def Let_def max_def)
qed

lemma binary64_nonneg: "0 \<le> x \<Longrightarrow> 0 \<le> binary64 x"
  by (auto simp: binary64_def Let_def intro!: mult_nonneg_nonneg roundTiesToEven_nonneg
      divide_nonneg_nonneg)

lemma ilog2_ge:
  assumes "0 < x" and "2 powi e \<le> x"
  shows "e \<le> ilog2 x"
proof (rule ccontr)
  assume "\<not> e \<le> ilog2 x"
  then have "ilog2 x + 1 \<le> e" by simp
  then have "(2::rat) powi (ilog2 x + 1) \<le> 2 powi e"
    by (intro power_int_increasing) simp_all
  with ilog2_bounds [OF assms(1)] assms(2) show False by linarith
qed

lemma ilog2_less:
  assumes "0 < x" and "x < 2 powi e"
  shows "ilog2 x < e"
proof (rule ccontr)
  assume "\<not> ilog2 x < e"
  then have "(2::rat) powi e \<le> 2 powi (ilog2 x)"
    by (intro power_int_increasing) simp_all
  with ilog2_bounds [OF assms(1)] assms(2) show False by linarith
qed

lemma binary64_error:
  assumes "2 powi (- 1022) \<le> \<bar>x\<bar>"
  shows "\<bar>binary64 x - x\<bar> \<le> \<bar>x\<bar> / 2 ^ 53"
proof -
  have pos: "0 < \<bar>x\<bar>"
    using assms zero_less_power_int [of "2::rat" "- 1022"] by linarith
  then have x0: "x \<noteq> 0" by simp
  define e where "e = ilog2 \<bar>x\<bar>"
  define u :: rat where "u = 2 powi (e - 52)"
  have e_lo: "- 1022 \<le> e" unfolding e_def using pos assms by (rule ilog2_ge)
  have upos: "0 < u" by (simp add: u_def)
  have b: "binary64 x = of_int (roundTiesToEven (x / u)) * u"
    using x0 e_lo by (simp add: binary64_def Let_def max_def e_def u_def)
  have "binary64 x - x = (of_int (roundTiesToEven (x / u)) - x / u) * u"
    using upos by (simp add: b field_simps)
  then have "\<bar>binary64 x - x\<bar> = \<bar>of_int (roundTiesToEven (x / u)) - x / u\<bar> * u"
    using upos by (simp add: abs_mult)
  also have "\<dots> \<le> (1 / 2) * u"
    using roundTiesToEven_error [of "x / u"] upos by (intro mult_right_mono) simp_all
  also have "\<dots> = 2 powi e / 2 ^ 53"
  proof -
    have "u = 2 powi e / 2 powi 52" unfolding u_def by (rule power_int_diff) simp
    then show ?thesis by simp
  qed
  also have "\<dots> \<le> \<bar>x\<bar> / 2 ^ 53"
    using ilog2_bounds [OF pos] by (simp add: e_def divide_right_mono)
  finally show ?thesis .
qed

lemma binary64_of_int:
  assumes "\<bar>n\<bar> < 2 ^ 53"
  shows "binary64 (of_int n) = of_int n"
proof (cases "n = 0")
  case True
  then show ?thesis by (simp add: binary64_def)
next
  case False
  let ?x = "of_int n :: rat"
  have pos: "0 < \<bar>?x\<bar>" using False by simp
  define e where "e = ilog2 \<bar>?x\<bar>"
  have "(2::rat) powi 0 \<le> \<bar>?x\<bar>"
  proof -
    from False have "1 \<le> \<bar>n\<bar>" by simp
    then have "(1::rat) \<le> of_int \<bar>n\<bar>" by (simp only: of_int_1_le_iff)
    then show ?thesis by simp
  qed
  then have e0: "0 \<le> e" unfolding e_def using pos by (intro ilog2_ge)
  have "\<bar>?x\<bar> < 2 powi 53"
  proof -
    from assms have "(of_int \<bar>n\<bar> :: rat) < of_int (2 ^ 53)" by (simp only: of_int_less_iff)
    then show ?thesis by simp
  qed
  then have "e < 53" unfolding e_def using pos by (intro ilog2_less)
  then have e52: "e \<le> 52" by simp
  define k where "k = nat (52 - e)"
  have u: "(2::rat) powi (e - 52) = 1 / 2 ^ k"
  proof -
    have "e - 52 = - int k" using e52 by (simp add: k_def)
    then have "(2::rat) powi (e - 52) = 2 powi (- int k)" by (simp only:)
    also have "\<dots> = inverse (2 powi int k)" by (rule power_int_minus)
    also have "\<dots> = 1 / 2 ^ k" by (simp only: power_int_of_nat inverse_eq_divide)
    finally show ?thesis .
  qed
  have q: "?x / (1 / 2 ^ k) = of_int (n * 2 ^ k)" by simp
  have "binary64 ?x = of_int (roundTiesToEven (?x / (1 / 2 ^ k))) * (1 / 2 ^ k)"
    using False e0 by (simp add: binary64_def Let_def max_def e_def [symmetric] u)
  also have "\<dots> = of_int (n * 2 ^ k) * (1 / 2 ^ k)"
    unfolding q by (simp only: roundTiesToEven_of_int)
  also have "\<dots> = ?x" by simp
  finally show ?thesis .
qed

lemma roundTiesToEven_eqI:
  assumes "\<bar>y - of_int m\<bar> < 1 / 2"
  shows "roundTiesToEven y = m"
proof -
  have "\<bar>of_int (roundTiesToEven y) - (of_int m :: rat)\<bar> < 1"
    using roundTiesToEven_error [of y] assms by linarith
  then have "\<bar>(of_int (roundTiesToEven y - m) :: rat)\<bar> < of_int 1" by simp
  then have "\<bar>roundTiesToEven y - m\<bar> < 1"
    by (simp only: of_int_abs [symmetric] of_int_less_iff)
  then show ?thesis by simp
qed

lemma toNumber_Fin: "\<bar>binary64 x\<bar> < 2 ^ 1024 \<Longrightarrow> toNumber x = Fin (binary64 x)"
  by (simp add: toNumber_def Let_def)

lemma toNumber_of_int: "\<bar>n\<bar> < 2 ^ 53 \<Longrightarrow> toNumber (of_int n) = Fin (of_int n)"
proof -
  assume a: "\<bar>n\<bar> < 2 ^ 53"
  then have b: "binary64 (of_int n) = of_int n" by (rule binary64_of_int)
  from a have "\<bar>n\<bar> < 2 ^ 1024" by simp
  then have "(of_int \<bar>n\<bar> :: rat) < of_int (2 ^ 1024)" by (simp only: of_int_less_iff)
  then have "\<bar>of_int n :: rat\<bar> < 2 ^ 1024" by simp
  with b show ?thesis by (simp add: toNumber_Fin)
qed

lemma toNumber_small:
  assumes "\<bar>binary64 p\<bar> < 2 ^ 60"
  shows "toNumber p = Fin (binary64 p)"
proof -
  have "(2::rat) ^ 60 < 2 ^ 1024" by simp
  with assms have "\<bar>binary64 p\<bar> < 2 ^ 1024" by linarith
  then show ?thesis by (rule toNumber_Fin)
qed

lemma binary64_evalI:
  assumes "x \<noteq> 0" and "2 powi e \<le> \<bar>x\<bar>" and "\<bar>x\<bar> < 2 powi (e + 1)" and "- 1022 \<le> e"
    and "\<bar>x / 2 powi (e - 52) - of_int m\<bar> < 1 / 2"
  shows "binary64 x = of_int m * 2 powi (e - 52)"
  using binary64_eq [OF assms(1-4)] roundTiesToEven_eqI [OF assms(5)] by simp

lemma toNumber_0: "toNumber 0 = Fin 0"
  by (simp add: toNumber_def binary64_def)

lemma floor_half: "\<lfloor>1 / 2 :: rat\<rfloor> = 0"
  by (simp add: floor_eq_iff)

lemma roundTiesToEven_tie:
  "roundTiesToEven (of_int f + 1 / 2) = (if even f then f else f + 1)"
proof -
  have "\<lfloor>of_int f + 1 / 2 :: rat\<rfloor> = f" by (simp add: floor_eq_iff)
  then show ?thesis by (simp add: roundTiesToEven_def)
qed

lemma js_add_int:
  "\<bar>c + i\<bar> < 2 ^ 53 \<Longrightarrow> js_add (Fin (of_int c)) (Fin (of_int i)) = Fin (of_int (c + i))"
  using toNumber_of_int [of "c + i"] by simp

lemma js_lt_iff_not_ge: "x \<noteq> NaN \<Longrightarrow> m \<noteq> NaN \<Longrightarrow> js_lt x m \<longleftrightarrow> \<not> js_ge x m"
  by (cases x; cases m) (auto simp: js_ge_def)

lemma Number_isInteger_Ints: "Number_isInteger (Fin x) \<longleftrightarrow> x \<in> \<int>"
  by (simp, metis Ints_of_int floor_of_int Ints_cases)

lemma Number_isInteger_positive:
  "Number_isInteger x \<Longrightarrow> js_le x (Fin 0) \<longleftrightarrow> \<not> js_lt (Fin 0) x"
  by (cases x) auto

section \<open>Activity window\<close>

text \<open>
  Claim C7. At every instant, an auction is active exactly when its status is open and
  the instant lies between the start and the end time, both included: an open auction
  is active at its start time and at its end time. A closed auction is never active.
\<close>

theorem isAuctionActive_window:
  "(isAuctionActive now a \<longleftrightarrow> status a = Open \<and> startTime a \<le> now \<and> now \<le> endTime a)
   \<and> (status a = Open \<and> startTime a \<le> endTime a \<longrightarrow>
        isAuctionActive (startTime a) a \<and> isAuctionActive (endTime a) a)
   \<and> (status a = Closed \<longrightarrow> \<not> isAuctionActive now a)"
  by (auto simp: isAuctionActive_def)

theorem isAuctionActive_window_witness:
  "status (mockAuction 1000) = Open
   \<and> startTime (mockAuction 1000) \<le> endTime (mockAuction 1000)
   \<and> isAuctionActive 1000 (mockAuction 1000)
   \<and> isAuctionActive 3601000 (mockAuction 1000)
   \<and> \<not> isAuctionActive 3601001 (mockAuction 1000)
   \<and> \<not> isAuctionActive 999 (mockAuction 1000)
   \<and> \<not> isAuctionActive 2000 ((mockAuction 1000)\<lparr>status := Closed\<rparr>)"
  using isAuctionActive_window [of 1000 "mockAuction 1000"]
    isAuctionActive_window [of 3601000 "mockAuction 1000"]
    isAuctionActive_window [of 3601001 "mockAuction 1000"]
    isAuctionActive_window [of 999 "mockAuction 1000"]
    isAuctionActive_window [of 2000 "(mockAuction 1000)\<lparr>status := Closed\<rparr>"]
  by (simp add: mockAuction_def)

section \<open>Bid validation: order of the checks\<close>

lemma half_not_integer: "(25001 / 2 :: rat) \<notin> \<int>"
proof
  assume "(25001 / 2 :: rat) \<in> \<int>"
  then obtain k :: int where "(25001 / 2 :: rat) = of_int k" by (auto elim: Ints_cases)
  then have "(of_int 25001 :: rat) = of_int (2 * k)" by simp
  then have "(25001 :: int) = 2 * k" by (simp only: of_int_eq_iff)
  then show False by presburger
qed

lemma validateBid_accepts:
  assumes "validateBid now a x = Inr u"
  shows "\<exists>r. x = Fin r \<and> r \<in> \<int> \<and> 0 < r"
    and "isAuctionActive now a"
    and "\<not> js_lt x (minimumBidCents a)" and "\<not> js_lt x (requiredMinimum a)"
proof -
  from assms have act: "isAuctionActive now a"
    and lo: "\<not> js_lt x (minimumBidCents a)" "\<not> js_lt x (requiredMinimum a)"
    and int: "Number_isInteger x" and pos: "\<not> js_le x (Fin 0)"
    by (auto simp: validateBid_def split: if_splits)
  from int obtain r where r: "x = Fin r" by (cases x) auto
  with int pos have "r \<in> \<int>" "0 < r" by (auto simp: Number_isInteger_Ints simp del: Number_isInteger.simps)
  with r show "\<exists>r. x = Fin r \<and> r \<in> \<int> \<and> 0 < r" by blast
  from act lo show "isAuctionActive now a" "\<not> js_lt x (minimumBidCents a)"
    "\<not> js_lt x (requiredMinimum a)" by simp_all
qed

lemma mockAuction_fields:
  "status (mockAuction t) = Open" "bids (mockAuction t) = []"
  "totalBids (mockAuction t) = Fin 1" "minimumBidCents (mockAuction t) = Fin 10000"
  "bidIncrementCents (mockAuction t) = Fin 500"
  "currentHighestBidCents (mockAuction t) = Fin 12000"
  "requiredMinimum (mockAuction t) = Fin 12500"
  using js_add_int [of 12000 500]
  by (simp_all add: mockAuction_def requiredMinimum_def)

lemma mockAuction_active:
  "isAuctionActive 5 (mockAuction 0)" "\<not> isAuctionActive (- 1) (mockAuction 0)"
  by (simp_all add: isAuctionActive_def mockAuction_def)

lemma validateBid_mockAuction:
  "validateBid 5 (mockAuction 0) (Fin x) =
     (if x < 10000 then Inl (BelowMinimum (Fin 10000))
      else if x < 12500 then Inl (BelowIncrement (Fin 12500))
      else if x \<notin> \<int> then Inl InvalidAmount else Inr ())"
  by (simp add: validateBid_def mockAuction_active mockAuction_fields Number_isInteger_Ints
      del: Number_isInteger.simps)

lemma validateBid_NaN: "isAuctionActive now a \<Longrightarrow> validateBid now a NaN = Inl InvalidAmount"
  by (simp add: validateBid_def)

lemma largeAuction_fields:
  "isAuctionActive 5 (largeAuction 0)" "minimumBidCents (largeAuction 0) = Fin 10000"
  "currentHighestBidCents (largeAuction 0) = Fin (2 ^ 53)"
  "bidIncrementCents (largeAuction 0) = Fin 1"
  by (simp_all add: largeAuction_def mockAuction_def isAuctionActive_def)

lemma largeAuction_requiredMinimum: "requiredMinimum (largeAuction 0) = Fin (2 ^ 53)"
proof -
  have "binary64 (2 ^ 53 + 1)
      = of_int (roundTiesToEven ((2 ^ 53 + 1) / 2 powi (53 - 52))) * 2 powi (53 - 52)"
    by (rule binary64_eq) simp_all
  also have "((2 ^ 53 + 1) / 2 powi (53 - 52) :: rat) = of_int (2 ^ 52) + 1 / 2" by simp
  also have "roundTiesToEven (of_int (2 ^ 52) + 1 / 2) = 2 ^ 52"
    by (simp only: roundTiesToEven_tie) simp
  finally have b: "binary64 (2 ^ 53 + 1) = 2 ^ 53" by simp
  have "toNumber (2 ^ 53 + 1) = Fin (binary64 (2 ^ 53 + 1))"
    by (rule toNumber_Fin) (simp only: b, simp)
  then show ?thesis
    by (simp only: requiredMinimum_def largeAuction_fields js_add.simps b)
qed

text \<open>
  Claim C1, as the code has it. \<open>validateBid\<close> runs four checks in this order: the
  auction is active; the amount is not below the minimum bid; the amount is not below
  the required minimum, which is the double sum of the current highest bid and the
  increment; the amount is a positive integer. Its result is the reason of the first
  check that fails, with the amount that was required, and it succeeds exactly when
  all four pass. An amount is not below a number exactly when it is at least that
  number, unless one of the two is \<open>NaN\<close>: the amount \<open>NaN\<close> passes the second and the
  third check of an active auction and is rejected by the fourth. The double sum is the
  exact sum when both numbers are integers and the sum is below \<open>2 ^ 53\<close> in magnitude.
  For an active auction with minimum bid 10000, increment 500 and current highest bid
  12000, the amount 12200 is rejected as below the increment with required minimum
  12500, and the amount 12500 is accepted.
\<close>

theorem validateBid_first_failing_check:
  "validateBid now a x =
     (if \<not> isAuctionActive now a then Inl NotActive
      else if js_lt x (minimumBidCents a) then Inl (BelowMinimum (minimumBidCents a))
      else if js_lt x (requiredMinimum a) then Inl (BelowIncrement (requiredMinimum a))
      else if \<not> (Number_isInteger x \<and> js_lt (Fin 0) x) then Inl InvalidAmount
      else Inr ())
   \<and> (validateBid now a x = Inr () \<longleftrightarrow>
        isAuctionActive now a \<and> \<not> js_lt x (minimumBidCents a)
        \<and> \<not> js_lt x (requiredMinimum a) \<and> Number_isInteger x \<and> js_lt (Fin 0) x)
   \<and> (\<forall>m. x \<noteq> NaN \<and> m \<noteq> NaN \<longrightarrow> (js_lt x m \<longleftrightarrow> \<not> js_ge x m))
   \<and> (isAuctionActive now a \<longrightarrow> validateBid now a NaN = Inl InvalidAmount)
   \<and> requiredMinimum a = js_add (currentHighestBidCents a) (bidIncrementCents a)
   \<and> (\<forall>c i. currentHighestBidCents a = Fin (of_int c) \<and> bidIncrementCents a = Fin (of_int i)
          \<and> \<bar>c + i\<bar> < 2 ^ 53 \<longrightarrow>
        requiredMinimum a = Fin (of_int (c + i)))
   \<and> (isAuctionActive now a \<and> minimumBidCents a = Fin 10000
        \<and> bidIncrementCents a = Fin 500 \<and> currentHighestBidCents a = Fin 12000 \<longrightarrow>
        validateBid now a (Fin 12200) = Inl (BelowIncrement (Fin 12500))
        \<and> validateBid now a (Fin 12500) = Inr ())"
proof -
  have checks: "validateBid now a x =
     (if \<not> isAuctionActive now a then Inl NotActive
      else if js_lt x (minimumBidCents a) then Inl (BelowMinimum (minimumBidCents a))
      else if js_lt x (requiredMinimum a) then Inl (BelowIncrement (requiredMinimum a))
      else if \<not> (Number_isInteger x \<and> js_lt (Fin 0) x) then Inl InvalidAmount
      else Inr ())"
    using Number_isInteger_positive [of x] by (auto simp: validateBid_def)
  have exact: "requiredMinimum a = Fin (of_int (c + i))"
    if "currentHighestBidCents a = Fin (of_int c)" "bidIncrementCents a = Fin (of_int i)"
      "\<bar>c + i\<bar> < 2 ^ 53" for c i
    using that js_add_int [of c i] by (simp add: requiredMinimum_def)
  have scenario: "validateBid now a (Fin 12200) = Inl (BelowIncrement (Fin 12500))
      \<and> validateBid now a (Fin 12500) = Inr ()"
    if "isAuctionActive now a" "minimumBidCents a = Fin 10000"
      "bidIncrementCents a = Fin 500" "currentHighestBidCents a = Fin 12000"
  proof -
    have "requiredMinimum a = Fin 12500"
      using that js_add_int [of 12000 500] by (simp add: requiredMinimum_def)
    with that show ?thesis by (simp add: validateBid_def)
  qed
  have success: "validateBid now a x = Inr () \<longleftrightarrow>
        isAuctionActive now a \<and> \<not> js_lt x (minimumBidCents a)
        \<and> \<not> js_lt x (requiredMinimum a) \<and> Number_isInteger x \<and> js_lt (Fin 0) x"
    unfolding checks by auto
  have cmp: "\<forall>m. x \<noteq> NaN \<and> m \<noteq> NaN \<longrightarrow> (js_lt x m \<longleftrightarrow> \<not> js_ge x m)"
    using js_lt_iff_not_ge by blast
  have nan: "isAuctionActive now a \<longrightarrow> validateBid now a NaN = Inl InvalidAmount"
    using validateBid_NaN by blast
  have req: "requiredMinimum a = js_add (currentHighestBidCents a) (bidIncrementCents a)"
    by (simp add: requiredMinimum_def)
  have ex: "\<forall>c i. currentHighestBidCents a = Fin (of_int c) \<and> bidIncrementCents a = Fin (of_int i)
          \<and> \<bar>c + i\<bar> < 2 ^ 53 \<longrightarrow>
        requiredMinimum a = Fin (of_int (c + i))"
    using exact by blast
  have sc: "isAuctionActive now a \<and> minimumBidCents a = Fin 10000
        \<and> bidIncrementCents a = Fin 500 \<and> currentHighestBidCents a = Fin 12000 \<longrightarrow>
        validateBid now a (Fin 12200) = Inl (BelowIncrement (Fin 12500))
        \<and> validateBid now a (Fin 12500) = Inr ()"
    using scenario by blast
  show ?thesis
    by (intro conjI) (rule checks success cmp nan req ex sc)+
qed

theorem validateBid_first_failing_check_witness:
  "isAuctionActive 5 (mockAuction 0)
   \<and> validateBid 5 (mockAuction 0) (Fin 12200) = Inl (BelowIncrement (Fin 12500))
   \<and> validateBid 5 (mockAuction 0) (Fin 12500) = Inr ()
   \<and> validateBid 5 (mockAuction 0) (Fin 5000) = Inl (BelowMinimum (Fin 10000))
   \<and> validateBid 5 (mockAuction 0) (Fin (25001 / 2)) = Inl InvalidAmount
   \<and> validateBid 5 (mockAuction 0) NaN = Inl InvalidAmount
   \<and> validateBid (- 1) (mockAuction 0) (Fin 13000) = Inl NotActive
   \<and> currentHighestBidCents (mockAuction 0) = Fin (of_int 12000)
   \<and> bidIncrementCents (mockAuction 0) = Fin (of_int 500)
   \<and> \<bar>12000 + 500 :: int\<bar> < 2 ^ 53
   \<and> requiredMinimum (mockAuction 0) = Fin (of_int (12000 + 500))"
proof -
  have c: "currentHighestBidCents (mockAuction 0) = Fin (of_int 12000)"
    and i: "bidIncrementCents (mockAuction 0) = Fin (of_int 500)"
    and b: "\<bar>12000 + 500 :: int\<bar> < 2 ^ 53"
    and m: "minimumBidCents (mockAuction 0) = Fin 10000"
    by (simp_all add: mockAuction_fields)
  have act: "isAuctionActive 5 (mockAuction 0)" by (rule mockAuction_active)
  have r: "requiredMinimum (mockAuction 0) = Fin (of_int (12000 + 500))"
    using validateBid_first_failing_check [of 5 "mockAuction 0" "Fin 12200"] c i b by blast
  have s: "validateBid 5 (mockAuction 0) (Fin 12200) = Inl (BelowIncrement (Fin 12500))
      \<and> validateBid 5 (mockAuction 0) (Fin 12500) = Inr ()"
    using validateBid_first_failing_check [of 5 "mockAuction 0" "Fin 12200"] act m
      mockAuction_fields [of 0] by blast
  have n: "validateBid 5 (mockAuction 0) NaN = Inl InvalidAmount"
    using validateBid_first_failing_check [of 5 "mockAuction 0" "Fin 12200"] act by blast
  have "validateBid 5 (mockAuction 0) (Fin 5000) = Inl (BelowMinimum (Fin 10000))"
    "validateBid 5 (mockAuction 0) (Fin (25001 / 2)) = Inl InvalidAmount"
    "validateBid (- 1) (mockAuction 0) (Fin 13000) = Inl NotActive"
    using half_not_integer mockAuction_active
    by (simp_all add: validateBid_mockAuction) (simp add: validateBid_def)
  with act r s n c i b show ?thesis by blast
qed

text \<open>
  The claim as stated, with the checks read as "the amount is at least", fails on the
  code. The amount \<open>NaN\<close> is not at least the minimum bid of the test fixture, so the
  second check as stated fails and its reason would be the result; the code returns
  the invalid-amount reason. And with current highest bid \<open>2 ^ 53\<close> and increment 1 the
  amount \<open>2 ^ 53\<close> is below their sum and is accepted, the double sum being \<open>2 ^ 53\<close>.
\<close>

theorem validateBid_at_least_counterexample:
  "isAuctionActive 5 (mockAuction 0)
   \<and> \<not> js_ge NaN (minimumBidCents (mockAuction 0))
   \<and> validateBid 5 (mockAuction 0) NaN = Inl InvalidAmount
   \<and> isAuctionActive 5 (largeAuction 0)
   \<and> currentHighestBidCents (largeAuction 0) = Fin (2 ^ 53)
   \<and> bidIncrementCents (largeAuction 0) = Fin 1
   \<and> (2 ^ 53 :: rat) < 2 ^ 53 + 1
   \<and> validateBid 5 (largeAuction 0) (Fin (2 ^ 53)) = Inr ()"
proof -
  have "validateBid 5 (largeAuction 0) (Fin (2 ^ 53)) = Inr ()"
    by (simp add: validateBid_def largeAuction_fields largeAuction_requiredMinimum)
  then show ?thesis
    by (simp add: validateBid_NaN mockAuction_active mockAuction_fields largeAuction_fields
        js_ge_def)
qed




section \<open>Adding a bid\<close>

text \<open>
  Claim C4, as the code has it. \<open>addBidToAuction\<close> raises exactly when \<open>validateBid\<close>
  rejects the bid's amount, with the same reason. When \<open>validateBid\<close> accepts, the
  result is the old state with the bid appended to the bid list, the current highest
  bid replaced by the maximum of the old one and the bid's amount, and \<open>totalBids\<close>
  replaced by the length of the new bid list; every other field is unchanged. The new
  \<open>totalBids\<close> is the old one plus one when the old one was the length of the old list.
\<close>

theorem addBidToAuction_result:
  "(\<forall>reason. validateBid now a (Fin (bidAmountCents b)) = Inl reason \<longrightarrow>
       addBidToAuction now a b = Inl reason)
   \<and> (validateBid now a (Fin (bidAmountCents b)) = Inr () \<longrightarrow>
       addBidToAuction now a b =
         Inr (a\<lparr>bids := bids a @ [b],
                currentHighestBidCents :=
                  Math_max (currentHighestBidCents a) (Fin (bidAmountCents b)),
                totalBids := Fin (of_nat (length (bids a)) + 1)\<rparr>))
   \<and> (\<forall>c. currentHighestBidCents a = Fin c \<longrightarrow>
         Math_max (currentHighestBidCents a) (Fin (bidAmountCents b))
           = Fin (max c (bidAmountCents b)))
   \<and> (\<forall>a' t. addBidToAuction now a b = Inr a' \<and> totalBids a = Fin t
          \<and> t = of_nat (length (bids a)) \<longrightarrow>
       totalBids a' = Fin (t + 1))"
  by (auto simp: addBidToAuction_def Let_def split: sum.splits)

theorem addBidToAuction_result_witness:
  "validateBid 0 (mockAuction 0) (Fin (bidAmountCents (validBid 0))) = Inr ()
   \<and> addBidToAuction 0 (mockAuction 0) (validBid 0) =
       Inr ((mockAuction 0)\<lparr>bids := [validBid 0], currentHighestBidCents := Fin 13000,
                              totalBids := Fin 1\<rparr>)
   \<and> validateBid 0 (mockAuction 0)
        (Fin (bidAmountCents ((validBid 0)\<lparr>bidAmountCents := 5000\<rparr>)))
       = Inl (BelowMinimum (Fin 10000))
   \<and> addBidToAuction 0 (mockAuction 0) ((validBid 0)\<lparr>bidAmountCents := 5000\<rparr>)
       = Inl (BelowMinimum (Fin 10000))
   \<and> totalBids ((mockAuction 0)\<lparr>totalBids := Fin 0\<rparr>) = Fin 0
   \<and> (0 :: rat) = of_nat (length (bids ((mockAuction 0)\<lparr>totalBids := Fin 0\<rparr>)))
   \<and> addBidToAuction 0 ((mockAuction 0)\<lparr>totalBids := Fin 0\<rparr>) (validBid 0) =
       Inr ((mockAuction 0)\<lparr>bids := [validBid 0], currentHighestBidCents := Fin 13000,
                              totalBids := Fin (0 + 1)\<rparr>)"
proof -
  have act: "isAuctionActive 0 (mockAuction 0)"
    "isAuctionActive 0 ((mockAuction 0)\<lparr>totalBids := Fin 0\<rparr>)"
    by (simp_all add: isAuctionActive_def mockAuction_def)
  have rq: "requiredMinimum ((mockAuction 0)\<lparr>totalBids := Fin 0\<rparr>) = Fin 12500"
    using mockAuction_fields(7) [of 0] by (simp add: requiredMinimum_def)
  have v1: "validateBid 0 (mockAuction 0) (Fin (bidAmountCents (validBid 0))) = Inr ()"
    by (simp add: validateBid_def act mockAuction_fields validBid_def)
  have v2: "validateBid 0 (mockAuction 0)
      (Fin (bidAmountCents ((validBid 0)\<lparr>bidAmountCents := 5000\<rparr>)))
      = Inl (BelowMinimum (Fin 10000))"
    by (simp add: validateBid_def act mockAuction_fields)
  have v3: "validateBid 0 ((mockAuction 0)\<lparr>totalBids := Fin 0\<rparr>)
      (Fin (bidAmountCents (validBid 0))) = Inr ()"
    by (simp add: validateBid_def act rq mockAuction_fields validBid_def)
  show ?thesis
    using addBidToAuction_result [of 0 "mockAuction 0" "validBid 0"]
      addBidToAuction_result [of 0 "mockAuction 0" "(validBid 0)\<lparr>bidAmountCents := 5000\<rparr>"]
      addBidToAuction_result [of 0 "(mockAuction 0)\<lparr>totalBids := Fin 0\<rparr>" "validBid 0"]
      v1 v2 v3
    by (simp add: mockAuction_def validBid_def)
qed

text \<open>
  The claim as stated, with \<open>totalBids\<close> equal to the old \<open>totalBids\<close> plus one, fails
  on the fixture of the test \<^verbatim>\<open>should add valid bid to auction\<close>: \<open>mockAuction\<close> has
  \<open>totalBids = 1\<close> and no bid, and the state returned has \<open>totalBids = 1\<close>, not 2.
\<close>

theorem addBidToAuction_totalBids_counterexample:
  "addBidToAuction 0 (mockAuction 0) (validBid 0) =
     Inr ((mockAuction 0)\<lparr>bids := [validBid 0], currentHighestBidCents := Fin 13000,
                            totalBids := Fin 1\<rparr>)
   \<and> js_add (totalBids (mockAuction 0)) (Fin 1) = Fin 2
   \<and> totalBids ((mockAuction 0)\<lparr>bids := [validBid 0], currentHighestBidCents := Fin 13000,
                            totalBids := Fin 1\<rparr>)
       \<noteq> js_add (totalBids (mockAuction 0)) (Fin 1)"
proof -
  have act: "isAuctionActive 0 (mockAuction 0)"
    by (simp add: isAuctionActive_def mockAuction_def)
  have v: "validateBid 0 (mockAuction 0) (Fin (bidAmountCents (validBid 0))) = Inr ()"
    by (simp add: validateBid_def act mockAuction_fields validBid_def)
  have two: "js_add (totalBids (mockAuction 0)) (Fin 1) = Fin 2"
    using js_add_int [of 1 1] by (simp add: mockAuction_fields)
  have "addBidToAuction 0 (mockAuction 0) (validBid 0) =
     Inr ((mockAuction 0)\<lparr>bids := [validBid 0], currentHighestBidCents := Fin 13000,
                            totalBids := Fin 1\<rparr>)"
    by (simp add: addBidToAuction_def v Let_def mockAuction_fields)
      (simp add: mockAuction_def validBid_def)
  with two show ?thesis by simp
qed

lemma highestAmount_snoc:
  "highestAmount (bs @ [b]) =
     (if bs = [] then bidAmountCents b else max (highestAmount bs) (bidAmountCents b))"
  by (auto simp: highestAmount_def max.commute)

text \<open>
  Claim C6. A successful \<open>addBidToAuction\<close> preserves the invariant of the auction
  state: when the current highest bid is the maximum amount among the bids (zero when
  there is none) and \<open>totalBids\<close> is the length of the bid list, and the bid is accepted,
  the returned state satisfies both again, over the bid list extended by the bid.
\<close>

theorem addBidToAuction_preserves_invariant:
  assumes "auctionInvariant a" and "addBidToAuction now a b = Inr a'"
  shows "auctionInvariant a'
     \<and> currentHighestBidCents a' = Fin (highestAmount (bids a @ [b]))
     \<and> totalBids a' = Fin (of_nat (length (bids a @ [b])))"
proof -
  from assms(2) obtain u where v: "validateBid now a (Fin (bidAmountCents b)) = Inr u"
    and a': "a' = a\<lparr>bids := bids a @ [b],
        currentHighestBidCents := Math_max (currentHighestBidCents a) (Fin (bidAmountCents b)),
        totalBids := Fin (of_nat (length (bids a @ [b])))\<rparr>"
    by (auto simp: addBidToAuction_def Let_def split: sum.splits)
  from validateBid_accepts(1) [OF v] have pos: "0 < bidAmountCents b" by simp
  from assms(1) have cur: "currentHighestBidCents a = Fin (highestAmount (bids a))"
    by (simp add: auctionInvariant_def)
  have "max (highestAmount (bids a)) (bidAmountCents b) = highestAmount (bids a @ [b])"
  proof (cases "bids a = []")
    case True
    with pos show ?thesis by (simp add: highestAmount_snoc highestAmount_def)
  next
    case False
    then show ?thesis by (simp add: highestAmount_snoc)
  qed
  with a' cur show ?thesis by (simp add: auctionInvariant_def)
qed

theorem addBidToAuction_preserves_invariant_witness:
  "auctionInvariant ((mockAuction 0)\<lparr>currentHighestBidCents := Fin 0, totalBids := Fin 0\<rparr>)
   \<and> addBidToAuction 0
        ((mockAuction 0)\<lparr>currentHighestBidCents := Fin 0, totalBids := Fin 0\<rparr>) (validBid 0)
       = Inr ((mockAuction 0)\<lparr>bids := [validBid 0], currentHighestBidCents := Fin 13000,
                                totalBids := Fin 1\<rparr>)
   \<and> auctionInvariant ((mockAuction 0)\<lparr>bids := [validBid 0],
        currentHighestBidCents := Fin 13000, totalBids := Fin 1\<rparr>)"
proof -
  let ?a = "(mockAuction 0)\<lparr>currentHighestBidCents := Fin 0, totalBids := Fin 0\<rparr>"
  let ?a' = "(mockAuction 0)\<lparr>bids := [validBid 0], currentHighestBidCents := Fin 13000,
      totalBids := Fin 1\<rparr>"
  have inv: "auctionInvariant ?a"
    by (simp add: auctionInvariant_def highestAmount_def mockAuction_def)
  have act: "isAuctionActive 0 ?a" by (simp add: isAuctionActive_def mockAuction_def)
  have rq: "requiredMinimum ?a = Fin 500"
    using js_add_int [of 0 500] by (simp add: requiredMinimum_def mockAuction_def)
  have v: "validateBid 0 ?a (Fin (bidAmountCents (validBid 0))) = Inr ()"
    by (simp add: validateBid_def act rq validBid_def) (simp add: mockAuction_def)
  have add: "addBidToAuction 0 ?a (validBid 0) = Inr ?a'"
    by (simp add: addBidToAuction_def v Let_def) (simp add: mockAuction_def validBid_def)
  from addBidToAuction_preserves_invariant [OF inv add] inv add show ?thesis by simp
qed

section \<open>Closure\<close>

text \<open>
  Claim C5. Closing an auction whose status is already closed fails with the error
  \<^verbatim>\<open>Auction is already closed\<close>. Closing an open auction succeeds with the winning
  bid (none when there is no bid), the final status closed and the number of bids of
  the auction, which is its \<open>totalBids\<close> when that field is the length of the bid list.
  Closing an open auction without bids succeeds with no winner and a bid count of 0.
\<close>

theorem closeAuction_result:
  "(status a = Closed \<longrightarrow>
      closeAuction a = \<lparr>success = False, winningBid = None, finalStatus = Closed,
                         closureTotalBids = totalBids a,
                         error = Some ''Auction is already closed''\<rparr>)
   \<and> (status a = Open \<longrightarrow>
      closeAuction a = \<lparr>success = True, winningBid = getWinningBid a, finalStatus = Closed,
                         closureTotalBids = Fin (of_nat (length (bids a))), error = None\<rparr>
      \<and> (totalBids a = Fin (of_nat (length (bids a))) \<longrightarrow>
            closureTotalBids (closeAuction a) = totalBids a))
   \<and> (status a = Open \<and> bids a = [] \<longrightarrow>
      closeAuction a = \<lparr>success = True, winningBid = None, finalStatus = Closed,
                         closureTotalBids = Fin 0, error = None\<rparr>)"
  by (auto simp: closeAuction_def getWinningBid_def)

theorem closeAuction_result_witness:
  "status (mockAuction 0) = Open \<and> bids (mockAuction 0) = []
   \<and> closeAuction (mockAuction 0) =
       \<lparr>success = True, winningBid = None, finalStatus = Closed,
        closureTotalBids = Fin 0, error = None\<rparr>
   \<and> status ((mockAuction 0)\<lparr>status := Closed\<rparr>) = Closed
   \<and> closeAuction ((mockAuction 0)\<lparr>status := Closed\<rparr>) =
       \<lparr>success = False, winningBid = None, finalStatus = Closed,
        closureTotalBids = Fin 1, error = Some ''Auction is already closed''\<rparr>
   \<and> totalBids ((mockAuction 0)\<lparr>totalBids := Fin 0\<rparr>)
       = Fin (of_nat (length (bids ((mockAuction 0)\<lparr>totalBids := Fin 0\<rparr>))))
   \<and> closureTotalBids (closeAuction ((mockAuction 0)\<lparr>totalBids := Fin 0\<rparr>)) = Fin 0"
proof -
  have r1: "closeAuction (mockAuction 0) =
      \<lparr>success = True, winningBid = None, finalStatus = Closed,
       closureTotalBids = Fin 0, error = None\<rparr>"
    using closeAuction_result [of "mockAuction 0"] mockAuction_fields [of 0] by blast
  have r2: "closeAuction ((mockAuction 0)\<lparr>status := Closed\<rparr>) =
      \<lparr>success = False, winningBid = None, finalStatus = Closed,
       closureTotalBids = Fin 1, error = Some ''Auction is already closed''\<rparr>"
    using closeAuction_result [of "(mockAuction 0)\<lparr>status := Closed\<rparr>"]
    by (simp add: mockAuction_fields)
  have r3: "closureTotalBids (closeAuction ((mockAuction 0)\<lparr>totalBids := Fin 0\<rparr>)) = Fin 0"
    using closeAuction_result [of "(mockAuction 0)\<lparr>totalBids := Fin 0\<rparr>"]
    by (simp add: mockAuction_fields)
  show ?thesis
    by (simp add: r1 r2 r3 mockAuction_fields)
qed

section \<open>Winner resolution\<close>

lemma compareBids_le_0:
  "compareBids a b \<le> 0 \<longleftrightarrow>
     bidAmountCents b < bidAmountCents a
     \<or> (bidAmountCents a = bidAmountCents b \<and> timestamp a \<le> timestamp b)"
  by (auto simp: compareBids_def)

lemma compareBids_total: "compareBids a b \<le> 0 \<or> compareBids b a \<le> 0"
  by (auto simp: compareBids_le_0)

lemma compareBids_trans:
  "compareBids a b \<le> 0 \<Longrightarrow> compareBids b c \<le> 0 \<Longrightarrow> compareBids a c \<le> 0"
  by (auto simp: compareBids_le_0)

lemma set_insertBy: "set (insertBy cmp x ys) = insert x (set ys)"
  by (induction ys) auto

lemma set_sortBy: "set (sortBy cmp xs) = set xs"
  by (induction xs) (auto simp: set_insertBy)

lemma sortBy_Nil_iff: "sortBy cmp xs = [] \<longleftrightarrow> xs = []"
  by (metis set_sortBy set_empty)

lemma hd_insertBy:
  "hd (insertBy cmp x ys) = (if ys = [] \<or> cmp x (hd ys) \<le> 0 then x else hd ys)"
  by (cases ys) auto

lemma hd_sortBy_first:
  "xs \<noteq> [] \<Longrightarrow>
     hd (sortBy compareBids xs) \<in> set xs
     \<and> (\<forall>c \<in> set xs. compareBids (hd (sortBy compareBids xs)) c \<le> 0)"
proof (induction xs)
  case Nil
  then show ?case by simp
next
  case (Cons x xs)
  show ?case
  proof (cases "xs = []")
    case True
    then show ?thesis by (simp add: compareBids_le_0)
  next
    case False
    let ?w = "hd (sortBy compareBids xs)"
    from Cons.IH [OF False] have w_in: "?w \<in> set xs"
      and w_first: "\<forall>c \<in> set xs. compareBids ?w c \<le> 0" by simp_all
    have ne: "sortBy compareBids xs \<noteq> []" using False by (simp add: sortBy_Nil_iff)
    show ?thesis
    proof (cases "compareBids x ?w \<le> 0")
      case True
      then have "hd (sortBy compareBids (x # xs)) = x" by (simp add: hd_insertBy)
      moreover have "\<forall>c \<in> set xs. compareBids x c \<le> 0"
        using True w_first compareBids_trans by blast
      moreover have "compareBids x x \<le> 0" by (simp add: compareBids_le_0)
      ultimately show ?thesis by simp
    next
      case False
      then have "hd (sortBy compareBids (x # xs)) = ?w" using ne by (simp add: hd_insertBy)
      moreover have "compareBids ?w x \<le> 0" using False compareBids_total by blast
      ultimately show ?thesis using w_in w_first by simp
    qed
  qed
qed

lemma getWinningBid_isBestBid:
  "getWinningBid a = Some w \<Longrightarrow> isBestBid (bids a) w"
proof -
  assume g: "getWinningBid a = Some w"
  then have ne: "bids a \<noteq> []" and w: "w = hd (sortBy compareBids (bids a))"
    by (auto simp: getWinningBid_def split: if_splits)
  from hd_sortBy_first [OF ne] w have "w \<in> set (bids a)"
    and "\<forall>c \<in> set (bids a). compareBids w c \<le> 0" by simp_all
  then show ?thesis
    unfolding isBestBid_def compareBids_le_0 by force
qed

lemma getWinningBid_None_iff: "getWinningBid a = None \<longleftrightarrow> bids a = []"
  by (simp add: getWinningBid_def)

lemma getWinningBid_permutation:
  assumes perm: "mset bs' = mset (bids a)" and uniq: "uniqueWinner (bids a)"
  shows "getWinningBid (a\<lparr>bids := bs'\<rparr>) = getWinningBid a"
proof (cases "bids a = []")
  case True
  with perm have "bs' = []" by simp
  with True show ?thesis by (simp add: getWinningBid_def)
next
  case False
  from perm have same: "set bs' = set (bids a)" by (rule mset_eq_setD)
  with False have ne': "bs' \<noteq> []" by auto
  from False obtain w where w: "getWinningBid a = Some w"
    by (auto simp: getWinningBid_def)
  from ne' obtain v where v: "getWinningBid (a\<lparr>bids := bs'\<rparr>) = Some v"
    by (auto simp: getWinningBid_def)
  from getWinningBid_isBestBid [OF w] have bw: "isBestBid (bids a) w" .
  from getWinningBid_isBestBid [OF v] have "isBestBid bs' v" by simp
  with same have bv: "isBestBid (bids a) v" by (simp add: isBestBid_def)
  from bw bv uniq have "w = v" unfolding uniqueWinner_def isBestBid_def by blast
  with w v show ?thesis by simp
qed

text \<open>
  Claim C3. \<open>getWinningBid\<close> returns no bid exactly when the bid list is empty.
  Otherwise it returns a bid of the list of maximal amount and, among the bids of that
  amount, of earliest timestamp. So when amounts and timestamps distinguish a unique
  winner, every permutation of the bid list has the same winning bid.
\<close>

theorem getWinningBid_best_and_order_independent:
  "(getWinningBid a = None \<longleftrightarrow> bids a = [])
   \<and> (\<forall>w. getWinningBid a = Some w \<longrightarrow>
         w \<in> set (bids a) \<and>
         (\<forall>c \<in> set (bids a). bidAmountCents c \<le> bidAmountCents w \<and>
            (bidAmountCents c = bidAmountCents w \<longrightarrow> timestamp w \<le> timestamp c)))
   \<and> (\<forall>bs'. mset bs' = mset (bids a) \<and> uniqueWinner (bids a) \<longrightarrow>
         getWinningBid (a\<lparr>bids := bs'\<rparr>) = getWinningBid a)"
proof (intro conjI allI impI)
  show "getWinningBid a = None \<longleftrightarrow> bids a = []" by (rule getWinningBid_None_iff)
next
  fix w assume "getWinningBid a = Some w"
  then have "isBestBid (bids a) w" by (rule getWinningBid_isBestBid)
  then show "w \<in> set (bids a)"
    and "\<forall>c \<in> set (bids a). bidAmountCents c \<le> bidAmountCents w \<and>
            (bidAmountCents c = bidAmountCents w \<longrightarrow> timestamp w \<le> timestamp c)"
    by (simp_all add: isBestBid_def)
next
  fix bs' assume "mset bs' = mset (bids a) \<and> uniqueWinner (bids a)"
  then show "getWinningBid (a\<lparr>bids := bs'\<rparr>) = getWinningBid a"
    using getWinningBid_permutation by blast
qed

lemma tieBids_unique: "uniqueWinner [tieBid2 0, tieBid1 0]"
  by (simp add: uniqueWinner_def isBestBid_def tieBid1_def tieBid2_def)

theorem getWinningBid_best_and_order_independent_witness:
  "getWinningBid ((mockAuction 0)\<lparr>bids := [tieBid2 0, tieBid1 0]\<rparr>) = Some (tieBid1 0)
   \<and> tieBid1 0 \<in> set [tieBid2 0, tieBid1 0]
   \<and> bidAmountCents (tieBid2 0) = bidAmountCents (tieBid1 0)
   \<and> timestamp (tieBid1 0) \<le> timestamp (tieBid2 0)
   \<and> mset [tieBid1 0, tieBid2 0] = mset [tieBid2 0, tieBid1 0]
   \<and> uniqueWinner [tieBid2 0, tieBid1 0]
   \<and> getWinningBid ((mockAuction 0)\<lparr>bids := [tieBid1 0, tieBid2 0]\<rparr>) = Some (tieBid1 0)
   \<and> getWinningBid (mockAuction 0) = None"
proof -
  let ?a = "(mockAuction 0)\<lparr>bids := [tieBid2 0, tieBid1 0]\<rparr>"
  have w: "getWinningBid ?a = Some (tieBid1 0)"
    by (simp add: getWinningBid_def compareBids_def tieBid1_def tieBid2_def)
  have p: "mset [tieBid1 0, tieBid2 0] = mset (bids ?a)" by simp
  have u: "uniqueWinner (bids ?a)" by (simp add: tieBids_unique)
  have "getWinningBid (?a\<lparr>bids := [tieBid1 0, tieBid2 0]\<rparr>) = getWinningBid ?a"
    using getWinningBid_best_and_order_independent [of ?a] p u by blast
  moreover have "getWinningBid (mockAuction 0) = None"
    using getWinningBid_best_and_order_independent [of "mockAuction 0"]
    by (simp add: mockAuction_fields)
  moreover have "timestamp (tieBid1 0) \<le> timestamp (tieBid2 0)"
    "bidAmountCents (tieBid2 0) = bidAmountCents (tieBid1 0)"
    by (simp_all add: tieBid1_def tieBid2_def)
  ultimately show ?thesis using w u by simp
qed

section \<open>Settlement\<close>

lemma binary64_0_06: "binary64 (6 / 100) = 8646911284551352 / 2 ^ 57"
proof -
  have "binary64 (6 / 100) =
      of_int (roundTiesToEven ((6 / 100) / 2 powi (- 5 - 52))) * 2 powi (- 5 - 52)"
    by (rule binary64_eq) simp_all
  also have "(6 / 100 :: rat) / 2 powi (- 5 - 52) = 216172782113783808 / 25"
    by simp
  also have "roundTiesToEven (216172782113783808 / 25) = 8646911284551352"
    by (rule roundTiesToEven_eqI) simp
  finally show ?thesis by simp
qed

lemma literal_0_06_value: "literal_0_06 = Fin (8646911284551352 / 2 ^ 57)"
proof -
  have "toNumber (6 / 100) = Fin (binary64 (6 / 100))"
    by (rule toNumber_Fin) (simp only: binary64_0_06, simp)
  then show ?thesis by (simp only: literal_0_06_def binary64_0_06)
qed

lemma tiny_le: "(2::rat) powi (- 1022) \<le> 1 / 32"
proof -
  have "(2::rat) powi (- 1022) \<le> 2 powi (- 5)" by (rule power_int_increasing) simp_all
  then show ?thesis by simp
qed

lemma binary64_near:
  assumes "1 / 32 \<le> p"
  shows "p - p / 2 ^ 53 \<le> binary64 p \<and> binary64 p \<le> p + p / 2 ^ 53"
proof -
  from assms have pos: "0 < p" by simp
  have ap: "\<bar>p\<bar> = p" using pos by simp
  have "2 powi (- 1022) \<le> \<bar>p\<bar>" using tiny_le assms by (simp only: ap)
  from binary64_error [OF this] have "\<bar>binary64 p - p\<bar> \<le> p / 2 ^ 53" by (simp only: ap)
  then show ?thesis by (simp only: abs_le_iff) linarith
qed

lemma commission_product:
  assumes "1 \<le> n" and "n < 2 ^ 53"
  shows "js_mul (Fin (of_int n)) literal_0_06 = Fin (binary64 (of_int n * (8646911284551352 / 2 ^ 57)))
     \<and> 0 \<le> binary64 (of_int n * (8646911284551352 / 2 ^ 57))
     \<and> binary64 (of_int n * (8646911284551352 / 2 ^ 57)) \<le> of_int n / 8"
proof -
  define p :: rat where "p = of_int n * (8646911284551352 / 2 ^ 57)"
  have n1: "(1::rat) \<le> of_int n" using assms(1) by simp
  have nb: "(of_int n :: rat) < 2 ^ 53"
  proof -
    from assms(2) have "(of_int n :: rat) < of_int (2 ^ 53)" by (simp only: of_int_less_iff)
    then show ?thesis by simp
  qed
  have plo: "1 / 32 \<le> p" unfolding p_def using n1 by simp
  have phi: "p \<le> of_int n / 16" unfolding p_def using n1 by simp
  from binary64_near [OF plo] have b: "p - p / 2 ^ 53 \<le> binary64 p" "binary64 p \<le> p + p / 2 ^ 53"
    by simp_all
  have b0: "0 \<le> binary64 p" using b(1) plo by simp
  have "p / 2 ^ 53 \<le> p" using plo by (simp add: field_simps)
  with b(2) phi have b8: "binary64 p \<le> of_int n / 8" by simp
  with nb have "binary64 p < 2 ^ 53" by simp
  also have "(2::rat) ^ 53 < 2 ^ 1024" by simp
  finally have "\<bar>binary64 p\<bar> < 2 ^ 1024" using b0 by simp
  then have "toNumber p = Fin (binary64 p)" by (rule toNumber_Fin)
  then show ?thesis using b0 b8 by (simp add: literal_0_06_value p_def)
qed

lemma calculateCommission_safe:
  assumes "0 \<le> n" and "n < 2 ^ 53"
  shows "\<exists>c. calculateCommission (Fin (of_int n)) = Fin (of_int c) \<and> 0 \<le> c \<and> c \<le> n"
proof (cases "n = 0")
  case True
  have "toNumber 0 = Fin 0" by (simp add: toNumber_def binary64_def)
  moreover have "\<lfloor>1 / 2 :: rat\<rfloor> = 0" by (simp add: floor_eq_iff)
  ultimately have "calculateCommission (Fin 0) = Fin (of_int 0)"
    by (simp add: calculateCommission_def literal_0_06_value)
  with True show ?thesis by auto
next
  case False
  with assms have n1: "1 \<le> n" by simp
  define b where "b = binary64 (of_int n * (8646911284551352 / 2 ^ 57))"
  from commission_product [OF n1 assms(2)]
  have m: "js_mul (Fin (of_int n)) literal_0_06 = Fin b" and b0: "0 \<le> b"
    and b8: "b \<le> of_int n / 8" by (simp_all add: b_def)
  have c: "calculateCommission (Fin (of_int n)) = Fin (of_int \<lfloor>b + 1 / 2\<rfloor>)"
    by (simp add: calculateCommission_def m)
  have "0 \<le> \<lfloor>b + 1 / 2\<rfloor>" using b0 by simp
  moreover have "\<lfloor>b + 1 / 2\<rfloor> \<le> n"
  proof -
    have "(1::rat) \<le> of_int n" using n1 by simp
    with b8 have "b + 1 / 2 \<le> of_int n" by simp
    then have "\<lfloor>b + 1 / 2\<rfloor> \<le> \<lfloor>of_int n :: rat\<rfloor>" by (rule floor_mono)
    then show ?thesis by simp
  qed
  ultimately show ?thesis using c by blast
qed

lemma calculateSettlement_fields:
  "calculateSettlement g =
     \<lparr>grossAmount = g, commissionCents = calculateCommission g,
      laborFeeCents = calculateLaborFee,
      netToSupplierCents = js_sub (js_sub g (calculateCommission g)) calculateLaborFee,
      commissionRate = literal_0_06, laborFeeFixed = Fin 25\<rparr>"
  by (simp add: calculateSettlement_def calculateCommission_def calculateLaborFee_def Let_def)

lemma js_sub_int:
  assumes "\<bar>a - b\<bar> < 2 ^ 53"
  shows "js_sub (Fin (of_int a)) (Fin (of_int b)) = Fin (of_int (a - b))"
  using toNumber_of_int [OF assms] by simp

lemma netToSupplier_safe:
  assumes "0 \<le> n" and "n < 2 ^ 53"
    and c: "calculateCommission (Fin (of_int n)) = Fin (of_int c)" and "0 \<le> c" and "c \<le> n"
  shows "netToSupplierCents (calculateSettlement (Fin (of_int n))) = Fin (of_int (n - c - 2500))"
proof -
  have 1: "js_sub (Fin (of_int n)) (Fin (of_int c)) = Fin (of_int (n - c))"
    using assms by (intro js_sub_int) simp
  have 2: "js_sub (Fin (of_int (n - c))) (Fin (of_int 2500)) = Fin (of_int (n - c - 2500))"
    using assms by (intro js_sub_int) simp
  have 3: "calculateLaborFee = Fin (of_int 2500)" by (simp add: calculateLaborFee_def)
  have "netToSupplierCents (calculateSettlement (Fin (of_int n)))
      = js_sub (js_sub (Fin (of_int n)) (calculateCommission (Fin (of_int n)))) calculateLaborFee"
    by (simp add: calculateSettlement_fields)
  also have "\<dots> = js_sub (Fin (of_int (n - c))) (Fin (of_int 2500))"
    by (simp only: c 1 3)
  also note 2
  finally show ?thesis .
qed

lemma calculateCommission_50000: "calculateCommission (Fin 50000) = Fin 3000"
proof -
  define b where "b = binary64 (of_int 50000 * (8646911284551352 / 2 ^ 57))"
  have m: "js_mul (Fin (of_int 50000)) literal_0_06 = Fin b"
    using commission_product [of 50000] by (simp add: b_def)
  have "1 / 32 \<le> (of_int 50000 * (8646911284551352 / 2 ^ 57) :: rat)" by simp
  from binary64_near [OF this] have "2999 + 1 / 2 \<le> b" "b < 3000 + 1 / 2"
    unfolding b_def by simp_all
  then have "\<lfloor>b + 1 / 2\<rfloor> = 3000" by (simp add: floor_eq_iff)
  then show ?thesis using m by (simp add: calculateCommission_def)
qed

text \<open>
  Claim C2, as the code has it. \<open>calculateSettlement\<close> returns the gross amount it
  was given, the commission \<open>Math.round(gross * 0.06)\<close>, which is \<open>calculateCommission\<close>
  of the gross amount, the labor fee 2500, which is \<open>calculateLaborFee\<close>, and as net
  amount the gross amount minus the commission minus the labor fee in double
  arithmetic, with no rounding step of its own. For every gross amount that is a
  non-negative integer below \<open>2 ^ 53\<close> the commission is an integer between 0 and the
  gross amount, and the net amount is exactly the gross amount minus the commission
  minus 2500. For 50000 the breakdown is commission 3000, labor fee 2500, net 44500.
\<close>

theorem calculateSettlement_breakdown:
  "commissionCents (calculateSettlement g) = calculateCommission g
   \<and> calculateCommission g = Math_round (js_mul g literal_0_06)
   \<and> laborFeeCents (calculateSettlement g) = calculateLaborFee
   \<and> calculateLaborFee = Fin 2500
   \<and> grossAmount (calculateSettlement g) = g
   \<and> netToSupplierCents (calculateSettlement g)
       = js_sub (js_sub g (calculateCommission g)) calculateLaborFee
   \<and> (0 \<le> n \<and> n < 2 ^ 53 \<longrightarrow>
        (\<exists>c. calculateCommission (Fin (of_int n)) = Fin (of_int c) \<and> 0 \<le> c \<and> c \<le> n
           \<and> netToSupplierCents (calculateSettlement (Fin (of_int n)))
               = Fin (of_int (n - c - 2500))))
   \<and> calculateSettlement (Fin 50000) =
       \<lparr>grossAmount = Fin 50000, commissionCents = Fin 3000, laborFeeCents = Fin 2500,
        netToSupplierCents = Fin 44500, commissionRate = literal_0_06,
        laborFeeFixed = Fin 25\<rparr>"
proof (intro conjI impI)
  show "0 \<le> n \<and> n < 2 ^ 53 \<Longrightarrow>
      \<exists>c. calculateCommission (Fin (of_int n)) = Fin (of_int c) \<and> 0 \<le> c \<and> c \<le> n
           \<and> netToSupplierCents (calculateSettlement (Fin (of_int n)))
               = Fin (of_int (n - c - 2500))"
    using calculateCommission_safe netToSupplier_safe by blast
next
  have c: "calculateCommission (Fin (of_int 50000)) = Fin (of_int 3000)"
    using calculateCommission_50000 by simp
  have "netToSupplierCents (calculateSettlement (Fin (of_int 50000)))
      = Fin (of_int (50000 - 3000 - 2500))"
    by (rule netToSupplier_safe [OF _ _ c]) simp_all
  then show "calculateSettlement (Fin 50000) =
       \<lparr>grossAmount = Fin 50000, commissionCents = Fin 3000, laborFeeCents = Fin 2500,
        netToSupplierCents = Fin 44500, commissionRate = literal_0_06,
        laborFeeFixed = Fin 25\<rparr>"
    using calculateCommission_50000
    by (simp add: calculateSettlement_fields calculateLaborFee_def)
qed (simp_all add: calculateSettlement_fields calculateCommission_def calculateLaborFee_def)


theorem calculateSettlement_breakdown_witness:
  "(0::int) \<le> 50000 \<and> (50000::int) < 2 ^ 53
   \<and> calculateCommission (Fin 50000) = Fin 3000
   \<and> commissionCents (calculateSettlement (Fin 50000)) = Fin 3000
   \<and> laborFeeCents (calculateSettlement (Fin 50000)) = Fin 2500
   \<and> netToSupplierCents (calculateSettlement (Fin 50000)) = Fin 44500"
proof -
  have r: "calculateSettlement (Fin 50000) =
       \<lparr>grossAmount = Fin 50000, commissionCents = Fin 3000, laborFeeCents = Fin 2500,
        netToSupplierCents = Fin 44500, commissionRate = literal_0_06,
        laborFeeFixed = Fin 25\<rparr>"
    and c: "commissionCents (calculateSettlement (Fin 50000)) = calculateCommission (Fin 50000)"
    using calculateSettlement_breakdown [of "Fin 50000" 50000] by blast+
  from c show ?thesis by (simp add: r)
qed

lemma large_product:
  "binary64 (100000000000000000 * (8646911284551352 / 2 ^ 57)) = 6000000000000000"
proof -
  have "binary64 (100000000000000000 * (8646911284551352 / 2 ^ 57))
      = of_int 6000000000000000 * 2 powi (52 - 52)"
    by (rule binary64_evalI) simp_all
  then show ?thesis by simp
qed

lemma large_difference:
  "binary64 (100000000000000000 - 6000000000000000) = 94000000000000000"
proof -
  have "binary64 (100000000000000000 - 6000000000000000)
      = of_int 5875000000000000 * 2 powi (56 - 52)"
    by (rule binary64_evalI) simp_all
  then show ?thesis by simp
qed

lemma large_net: "binary64 (94000000000000000 - 2500) = 93999999999997504"
proof -
  have "binary64 (94000000000000000 - 2500) = of_int 5874999999999844 * 2 powi (56 - 52)"
    by (rule binary64_evalI) simp_all
  then show ?thesis by simp
qed

text \<open>
  The claim for every non-negative integer fails: for the gross amount \<open>10 ^ 17\<close> the
  commission is 6000000000000000 and the net amount returned is 93999999999997504,
  the double nearest to the difference 93999999999997500.
\<close>

theorem calculateSettlement_large_gross_counterexample:
  "calculateCommission (Fin 100000000000000000) = Fin 6000000000000000
   \<and> netToSupplierCents (calculateSettlement (Fin 100000000000000000))
       = Fin 93999999999997504
   \<and> (100000000000000000 - 6000000000000000 - 2500 :: rat) = 93999999999997500
   \<and> netToSupplierCents (calculateSettlement (Fin 100000000000000000))
       \<noteq> Fin (100000000000000000 - 6000000000000000 - 2500)"
proof -
  have p: "toNumber (100000000000000000 * (8646911284551352 / 2 ^ 57))
      = Fin 6000000000000000"
    by (rule trans [OF toNumber_small]) (simp_all only: large_product, simp_all)
  have "\<lfloor>6000000000000000 + 1 / 2 :: rat\<rfloor> = 6000000000000000"
    by (simp add: floor_eq_iff)
  then have r: "Math_round (Fin 6000000000000000) = Fin 6000000000000000" by simp
  have "calculateCommission (Fin 100000000000000000)
      = Math_round (toNumber (100000000000000000 * (8646911284551352 / 2 ^ 57)))"
    by (simp only: calculateCommission_def Let_def literal_0_06_value js_mul.simps)
  then have c: "calculateCommission (Fin 100000000000000000) = Fin 6000000000000000"
    by (simp only: p r)
  have d: "toNumber (100000000000000000 - 6000000000000000) = Fin 94000000000000000"
    by (rule trans [OF toNumber_small]) (simp_all only: large_difference, simp_all)
  have n: "toNumber (94000000000000000 - 2500) = Fin 93999999999997504"
    by (rule trans [OF toNumber_small]) (simp_all only: large_net, simp_all)
  have "netToSupplierCents (calculateSettlement (Fin 100000000000000000))
      = js_sub (js_sub (Fin 100000000000000000)
          (calculateCommission (Fin 100000000000000000))) (Fin 2500)"
    by (simp add: calculateSettlement_fields calculateLaborFee_def)
  also have "\<dots> = toNumber (94000000000000000 - 2500)"
    by (simp only: c js_sub.simps d)
  finally have net: "netToSupplierCents (calculateSettlement (Fin 100000000000000000))
      = Fin 93999999999997504"
    by (simp only: n)
  show ?thesis unfolding net c by simp
qed

section \<open>Round trip of the money conversions\<close>

lemma tiny_le_hundredth: "(2::rat) powi (- 1022) \<le> 1 / 256"
proof -
  have "(2::rat) powi (- 1022) \<le> 2 powi (- 8)" by (rule power_int_increasing) simp_all
  then show ?thesis by simp
qed

lemma binary64_rel:
  assumes "1 / 256 \<le> \<bar>p\<bar>"
  shows "\<bar>binary64 p - p\<bar> \<le> \<bar>p\<bar> / 2 ^ 53"
proof -
  have "2 powi (- 1022) \<le> \<bar>p\<bar>" using tiny_le_hundredth assms by linarith
  then show ?thesis by (rule binary64_error)
qed

lemma roundtrip_steps:
  assumes d0: "d \<noteq> 0" and db: "\<bar>d\<bar> < 2 ^ 51"
  shows "toNumber (of_int d / 100) = Fin (binary64 (of_int d / 100))
     \<and> pesosTocentavos (Fin (binary64 (of_int d / 100))) = Fin (of_int d)"
proof -
  define q :: rat where "q = of_int d / 100"
  define x where "x = binary64 q"
  define y where "y = binary64 (x * 100)"
  have d1: "(1::rat) \<le> \<bar>of_int d\<bar>"
  proof -
    from d0 have "1 \<le> \<bar>d\<bar>" by simp
    then have "(of_int 1 :: rat) \<le> of_int \<bar>d\<bar>" by (simp only: of_int_le_iff)
    then show ?thesis by simp
  qed
  have dB: "\<bar>of_int d :: rat\<bar> \<le> 2 ^ 51 - 1"
  proof -
    from db have "\<bar>d\<bar> \<le> 2 ^ 51 - 1" by simp
    then have "(of_int \<bar>d\<bar> :: rat) \<le> of_int (2 ^ 51 - 1)" by (simp only: of_int_le_iff)
    then show ?thesis by simp
  qed
  have aq: "\<bar>q\<bar> = \<bar>of_int d\<bar> / 100" by (simp add: q_def)
  have q_lo: "1 / 256 \<le> \<bar>q\<bar>" unfolding aq using d1 by simp
  have ex: "\<bar>x - q\<bar> \<le> \<bar>q\<bar> / 2 ^ 53" unfolding x_def using q_lo by (rule binary64_rel)
  have x_lo: "1 / 256 \<le> \<bar>x * 100\<bar>"
  proof -
    have "\<bar>q\<bar> / 2 ^ 53 \<le> \<bar>q\<bar> / 2" by (simp add: field_simps)
    with ex have "\<bar>q\<bar> / 2 \<le> \<bar>x\<bar>" by linarith
    with q_lo have "1 / 512 \<le> \<bar>x\<bar>" by linarith
    then show ?thesis by (simp add: abs_mult)
  qed
  have ey: "\<bar>y - x * 100\<bar> \<le> \<bar>x * 100\<bar> / 2 ^ 53"
    unfolding y_def using x_lo by (rule binary64_rel)
  have q100: "q * 100 = of_int d" by (simp add: q_def)
  have x100: "\<bar>x * 100 - of_int d\<bar> \<le> \<bar>of_int d\<bar> / 2 ^ 53"
  proof -
    have "x * 100 - of_int d = (x - q) * 100"
      unfolding q100 [symmetric] by (simp add: algebra_simps)
    moreover have "\<bar>(x - q) * 100\<bar> = \<bar>x - q\<bar> * \<bar>100\<bar>" by (rule abs_mult)
    ultimately have "\<bar>x * 100 - of_int d\<bar> = \<bar>x - q\<bar> * 100" by simp
    also have "\<dots> \<le> (\<bar>q\<bar> / 2 ^ 53) * 100" using ex by simp
    also have "\<dots> = \<bar>of_int d\<bar> / 2 ^ 53" by (simp add: aq)
    finally show ?thesis .
  qed
  have ax: "\<bar>x * 100\<bar> \<le> \<bar>of_int d\<bar> + \<bar>of_int d\<bar> / 2 ^ 53" using x100 by linarith
  have yd: "\<bar>y - of_int d\<bar> < 1 / 2"
  proof -
    have "\<bar>y - of_int d\<bar> \<le> \<bar>y - x * 100\<bar> + \<bar>x * 100 - of_int d\<bar>" by linarith
    also have "\<dots> \<le> (\<bar>of_int d\<bar> + \<bar>of_int d\<bar> / 2 ^ 53) / 2 ^ 53 + \<bar>of_int d\<bar> / 2 ^ 53"
      using ey ax x100 by (simp add: field_simps) 
    also have "\<dots> < 1 / 2" using dB by simp
    finally show ?thesis .
  qed
  have tq: "toNumber q = Fin x"
  proof -
    have "\<bar>x\<bar> \<le> \<bar>q\<bar> + \<bar>q\<bar> / 2 ^ 53" using ex by linarith
    also have "\<dots> < 2 ^ 60" unfolding aq using dB by simp
    finally show ?thesis unfolding x_def by (rule toNumber_small)
  qed
  have tx: "toNumber (x * 100) = Fin y"
  proof -
    have "\<bar>y\<bar> < \<bar>of_int d\<bar> + 1 / 2" using yd by linarith
    also have "\<dots> < 2 ^ 60" using dB by simp
    finally show ?thesis unfolding y_def by (rule toNumber_small)
  qed
  have "of_int d \<le> y + 1 / 2" "y + 1 / 2 < of_int d + 1" using yd by linarith+
  then have "\<lfloor>y + 1 / 2\<rfloor> = d" by (simp only: floor_eq_iff)
  then have "pesosTocentavos (Fin x) = Fin (of_int d)"
    by (simp add: pesosTocentavos_def tx)
  with tq show ?thesis by (simp add: q_def x_def)
qed

text \<open>
  Claim C8, as the code has it. For every amount of at most two decimal places that is
  less than \<open>2 ^ 51\<close> centavos in magnitude, read as the double nearest to it,
  \<open>pesosTocentavos\<close> returns its count of centavos and \<open>centavosToPesos\<close> of that
  count is the same double again.
\<close>

theorem money_roundtrip_bounded:
  assumes "\<bar>d\<bar> < 2 ^ 51"
  shows "pesosTocentavos (toNumber (of_int d / 100)) = Fin (of_int d)
     \<and> centavosToPesos (pesosTocentavos (toNumber (of_int d / 100)))
         = toNumber (of_int d / 100)"
proof (cases "d = 0")
  case True
  then show ?thesis
    by (simp add: pesosTocentavos_def centavosToPesos_def toNumber_0 floor_half)
next
  case False
  from roundtrip_steps [OF False assms]
  have "pesosTocentavos (toNumber (of_int d / 100)) = Fin (of_int d)" by simp
  then show ?thesis by (simp add: centavosToPesos_def)
qed

theorem money_roundtrip_bounded_witness:
  "\<bar>12345 :: int\<bar> < 2 ^ 51
   \<and> pesosTocentavos (toNumber (of_int 12345 / 100)) = Fin (of_int 12345)
   \<and> centavosToPesos (pesosTocentavos (toNumber (of_int 12345 / 100)))
       = toNumber (of_int 12345 / 100)"
proof -
  have b: "\<bar>12345 :: int\<bar> < 2 ^ 51" by simp
  from money_roundtrip_bounded [OF b] b show ?thesis by blast
qed

text \<open>
  The test \<^verbatim>\<open>should handle floating point precision\<close> expects
  \<^verbatim>\<open>pesosTocentavos(1.005)\<close> to be 100: the double nearest to 1.005 is below it, and
  its product with 100 rounds to a double below 100.5.
\<close>

lemma double_1_005: "binary64 (1005 / 1000) = 4526117625507348 / 2 ^ 52"
proof -
  have "binary64 (1005 / 1000) = of_int 4526117625507348 * 2 powi (0 - 52)"
    by (rule binary64_evalI) simp_all
  then show ?thesis by simp
qed

lemma product_1_005:
  "binary64 (4526117625507348 / 2 ^ 52 * 100) = 7072058789855231 / 2 ^ 46"
proof -
  have "binary64 (4526117625507348 / 2 ^ 52 * 100)
      = of_int 7072058789855231 * 2 powi (6 - 52)"
    by (rule binary64_evalI) simp_all
  then show ?thesis by simp
qed

lemma pesosTocentavos_1_005:
  "toNumber (1005 / 1000) = Fin (4526117625507348 / 2 ^ 52)
   \<and> pesosTocentavos (Fin (4526117625507348 / 2 ^ 52)) = Fin 100"
proof -
  have x: "toNumber (1005 / 1000) = Fin (4526117625507348 / 2 ^ 52)"
    by (rule trans [OF toNumber_small]) (simp_all only: double_1_005, simp_all)
  have y: "toNumber (4526117625507348 / 2 ^ 52 * 100) = Fin (7072058789855231 / 2 ^ 46)"
    by (rule trans [OF toNumber_small]) (simp_all only: product_1_005, simp_all)
  have "\<lfloor>7072058789855231 / 2 ^ 46 + 1 / 2 :: rat\<rfloor> = 100" by (simp add: floor_eq_iff)
  then have r: "Math_round (Fin (7072058789855231 / 2 ^ 46)) = Fin 100" by simp
  have "pesosTocentavos (Fin (4526117625507348 / 2 ^ 52))
      = Math_round (toNumber (4526117625507348 / 2 ^ 52 * 100))"
    by (simp only: pesosTocentavos_def js_mul.simps)
  then have "pesosTocentavos (Fin (4526117625507348 / 2 ^ 52)) = Fin 100"
    by (simp only: y r)
  with x show ?thesis by (simp only: simp_thms)
qed

lemma big_double: "binary64 (3518542263446352 / 100) = 4503734097211331 / 128"
proof -
  have "binary64 (3518542263446352 / 100) = of_int 4503734097211331 * 2 powi (45 - 52)"
    by (rule binary64_evalI) simp_all
  then show ?thesis by simp
qed

lemma big_product: "binary64 (4503734097211331 / 128 * 100) = 7037084526892705 / 2"
proof -
  have "binary64 (4503734097211331 / 128 * 100) = of_int 7037084526892705 * 2 powi (51 - 52)"
    by (rule binary64_evalI) simp_all
  then show ?thesis by simp
qed

lemma big_quotient: "binary64 (3518542263446353 / 100) = 4503734097211332 / 128"
proof -
  have "binary64 (3518542263446353 / 100) = of_int 4503734097211332 * 2 powi (45 - 52)"
    by (rule binary64_evalI) simp_all
  then show ?thesis by simp
qed

text \<open>
  The claim without a bound fails: the double nearest to 35185422634463.52 times 100
  rounds to 3518542263446352.5, which \<open>Math.round\<close> takes up to 3518542263446353,
  and the double nearest to 35185422634463.53 is the next one.
\<close>

theorem money_roundtrip_counterexample:
  "toNumber (3518542263446352 / 100) = Fin (4503734097211331 / 128)
   \<and> pesosTocentavos (Fin (4503734097211331 / 128)) = Fin 3518542263446353
   \<and> centavosToPesos (Fin 3518542263446353) = Fin (4503734097211332 / 128)
   \<and> centavosToPesos (pesosTocentavos (toNumber (3518542263446352 / 100)))
       \<noteq> toNumber (3518542263446352 / 100)"
proof -
  have x: "toNumber (3518542263446352 / 100) = Fin (4503734097211331 / 128)"
    by (rule trans [OF toNumber_small]) (simp_all only: big_double, simp_all)
  have y: "toNumber (4503734097211331 / 128 * 100) = Fin (7037084526892705 / 2)"
    by (rule trans [OF toNumber_small]) (simp_all only: big_product, simp_all)
  have "\<lfloor>7037084526892705 / 2 + 1 / 2 :: rat\<rfloor> = 3518542263446353" by simp
  then have r: "Math_round (Fin (7037084526892705 / 2)) = Fin 3518542263446353" by simp
  have "pesosTocentavos (Fin (4503734097211331 / 128))
      = Math_round (toNumber (4503734097211331 / 128 * 100))"
    by (simp only: pesosTocentavos_def js_mul.simps)
  then have c: "pesosTocentavos (Fin (4503734097211331 / 128)) = Fin 3518542263446353"
    by (simp only: y r)
  have z: "toNumber (3518542263446353 / 100) = Fin (4503734097211332 / 128)"
    by (rule trans [OF toNumber_small]) (simp_all only: big_quotient, simp_all)
  then have p: "centavosToPesos (Fin 3518542263446353) = Fin (4503734097211332 / 128)"
    by (simp add: centavosToPesos_def)
  show ?thesis unfolding x c p by simp
qed

section \<open>Parsing a money string\<close>

lemma ascii_12abc: "ascii ''12abc'' = [49, 50, 97, 98, 99]"
  by (simp add: ascii_def)

lemma ascii_Infinity: "ascii ''Infinity'' = [73, 110, 102, 105, 110, 105, 116, 121]"
  by (simp add: ascii_def)

lemma toNumber_not_NaN: "toNumber x \<noteq> NaN"
  by (simp add: toNumber_def Let_def)

lemma cleanString_no_space: "dropWhile isWhiteSpace (cleanString s) = cleanString s"
proof (cases "cleanString s")
  case Nil
  then show ?thesis by simp
next
  case (Cons c cs)
  then have "c \<in> set (cleanString s)" by simp
  then have "\<not> isWhiteSpace c" by (simp add: cleanString_def)
  with Cons show ?thesis by simp
qed

lemma strDecimalLiteral_None_iff:
  "strDecimalLiteral t = None \<longleftrightarrow> \<not> startsWithNumber t"
proof -
  obtain neg u where ts: "takeSign t = (neg, u)" by (cases "takeSign t")
  show ?thesis
  proof (cases "take 8 u = ascii ''Infinity''")
    case True
    then show ?thesis by (simp add: strDecimalLiteral_def startsWithNumber_def ts)
  next
    case False
    show ?thesis
    proof (cases u)
      case Nil
      with False show ?thesis
        by (simp add: strDecimalLiteral_def startsWithNumber_def ts)
    next
      case (Cons c r)
      show ?thesis
      proof (cases "isDigit c")
        case True
        with Cons False show ?thesis
          by (simp add: strDecimalLiteral_def startsWithNumber_def ts Let_def split: prod.splits)
      next
        case nd: False
        show ?thesis
        proof (cases r)
          case Nil
          with Cons False nd show ?thesis
            by (simp add: strDecimalLiteral_def startsWithNumber_def ts Let_def split: prod.splits)
        next
          case (Cons c' r')
          with \<open>u = c # r\<close> False nd show ?thesis
            by (simp add: strDecimalLiteral_def startsWithNumber_def ts Let_def
                split: prod.splits)
        qed
      qed
    qed
  qed
qed

lemma strDecimalLiteral_not_NaN: "strDecimalLiteral t = Some (v, rest) \<Longrightarrow> v \<noteq> NaN"
  by (auto simp: strDecimalLiteral_def Let_def toNumber_not_NaN
      split: prod.splits if_splits)

lemma parseFloat_NaN_iff:
  "parseFloat t = NaN \<longleftrightarrow> \<not> startsWithNumber (dropWhile isWhiteSpace t)"
proof (cases "strDecimalLiteral (dropWhile isWhiteSpace t)")
  case None
  then show ?thesis by (simp add: parseFloat_def strDecimalLiteral_None_iff [symmetric])
next
  case (Some p)
  obtain v rest where p: "p = (v, rest)" by (cases p)
  with Some have "v \<noteq> NaN" by (auto dest: strDecimalLiteral_not_NaN)
  moreover have "startsWithNumber (dropWhile isWhiteSpace t)"
    using Some strDecimalLiteral_None_iff [of "dropWhile isWhiteSpace t"] by simp
  ultimately show ?thesis using Some p by (simp add: parseFloat_def)
qed

text \<open>
  Claim C9, as the code has it. \<open>parseMoneyString\<close> removes every peso sign, comma
  and white space character from the input, reads the number at the start of the
  remaining text as \<open>parseFloat\<close> does, and returns \<open>Math.round\<close> of that number times
  100. It raises \<^verbatim>\<open>Invalid money format\<close> exactly when the cleaned text does not begin
  with a decimal literal: a sign if any, followed by a digit, by a point and a digit, or
  by \<^verbatim>\<open>Infinity\<close>. It has no other error.
\<close>

theorem parseMoneyString_result:
  "(parseMoneyString s = Inl InvalidMoneyFormat \<longleftrightarrow> \<not> startsWithNumber (cleanString s))
   \<and> (startsWithNumber (cleanString s) \<longrightarrow>
        parseMoneyString s = Inr (pesosTocentavos (parseFloat (cleanString s)))
        \<and> parseFloat (cleanString s) \<noteq> NaN)
   \<and> cleanString s = filter (\<lambda>c. c \<noteq> 8369 \<and> c \<noteq> 44 \<and> \<not> isWhiteSpace c) s
   \<and> (\<forall>e. parseMoneyString s = Inl e \<longrightarrow> e = InvalidMoneyFormat)"
proof -
  have n: "parseFloat (cleanString s) = NaN \<longleftrightarrow> \<not> startsWithNumber (cleanString s)"
    by (simp add: parseFloat_NaN_iff cleanString_no_space)
  have c: "cleanString s = filter (\<lambda>c. c \<noteq> 8369 \<and> c \<noteq> 44 \<and> \<not> isWhiteSpace c) s"
    by (simp add: cleanString_def)
  have e: "\<forall>e. parseMoneyString s = Inl e \<longrightarrow> e = InvalidMoneyFormat"
    by (auto intro: MoneyError.exhaust)
  from n c e show ?thesis
    by (auto simp: parseMoneyString_def Let_def isNaN_def)
qed

lemmas parse_eval = strDecimalLiteral_def takeSign_def ascii_Infinity isDigit_def
  digitsValue_def exponentPart_def Let_def

lemma parse_12abc:
  "strDecimalLiteral [49, 50, 97, 98, 99] = Some (toNumber (of_int 12), [97, 98, 99])"
  by (simp add: parse_eval)

lemma pesosTocentavos_12: "pesosTocentavos (Fin 12) = Fin 1200"
proof -
  have "toNumber (of_int 1200) = Fin (of_int 1200)" by (rule toNumber_of_int) simp
  then have "toNumber (12 * 100) = Fin 1200" by simp
  moreover have "\<lfloor>1200 + 1 / 2 :: rat\<rfloor> = 1200" by (simp add: floor_eq_iff)
  ultimately show ?thesis by (simp add: pesosTocentavos_def)
qed

text \<open>
  The claim read with the whole cleaned text as the number fails: the text \<^verbatim>\<open>12abc\<close>
  is left as it is by the cleaning and is not a number, yet the result is 1200 and no
  error is raised; \<open>parseFloat\<close> stops at the first character it cannot use.
\<close>

theorem parseMoneyString_trailing_text_counterexample:
  "cleanString (ascii ''12abc'') = ascii ''12abc''
   \<and> \<not> isNumberText (ascii ''12abc'')
   \<and> parseMoneyString (ascii ''12abc'') = Inr (Fin 1200)"
proof -
  have t: "toNumber (of_int 12) = Fin (of_int 12)" by (rule toNumber_of_int) simp
  have c: "cleanString [49, 50, 97, 98, 99] = [49, 50, 97, 98, 99]"
    by (simp add: cleanString_def isWhiteSpace_def)
  have n: "\<not> isNumberText [49, 50, 97, 98, 99]"
    by (simp add: isNumberText_def parse_12abc)
  have "parseFloat [49, 50, 97, 98, 99] = Fin 12"
    using t by (simp add: parseFloat_def isWhiteSpace_def parse_12abc)
  then have "parseMoneyString [49, 50, 97, 98, 99] = Inr (Fin 1200)"
    by (simp add: parseMoneyString_def c isNaN_def pesosTocentavos_12)
  with c n show ?thesis by (simp add: ascii_12abc)
qed

lemma ascii_dollar: "ascii ''$abc.def'' = [36, 97, 98, 99, 46, 100, 101, 102]"
  by (simp add: ascii_def)

lemma ascii_amount: "ascii ''1,234.56'' = [49, 44, 50, 51, 52, 46, 53, 54]"
  by (simp add: ascii_def)

theorem parseMoneyString_result_witness:
  "startsWithNumber (cleanString (8369 # ascii ''1,234.56''))
   \<and> parseMoneyString (8369 # ascii ''1,234.56'') = Inr (Fin 123456)
   \<and> \<not> startsWithNumber (cleanString (ascii ''$abc.def''))
   \<and> parseMoneyString (ascii ''$abc.def'') = Inl InvalidMoneyFormat"
proof -
  let ?s = "8369 # ascii ''1,234.56''"
  have c1: "cleanString ?s = [49, 50, 51, 52, 46, 53, 54]"
    by (simp add: cleanString_def isWhiteSpace_def ascii_amount)
  have s1: "startsWithNumber (cleanString ?s)"
    by (simp add: c1 startsWithNumber_def takeSign_def ascii_Infinity isDigit_def)
  have "strDecimalLiteral [49, 50, 51, 52, 46, 53, 54]
      = Some (toNumber ((of_nat 1234 + of_nat 56 / 10 ^ 2) * 10 powi 0), [])"
    by (simp add: parse_eval)
  moreover have "((of_nat 1234 + of_nat 56 / 10 ^ 2) * 10 powi 0 :: rat) = of_int 123456 / 100"
    by simp
  ultimately have "parseFloat (cleanString ?s) = toNumber (of_int 123456 / 100)"
    by (simp only: parseFloat_def c1 cleanString_no_space [of ?s, unfolded c1]
        option.case prod.case)
  moreover have "pesosTocentavos (toNumber (of_int 123456 / 100)) = Fin (of_int 123456)"
    using roundtrip_steps [of 123456] by simp
  ultimately have v: "pesosTocentavos (parseFloat (cleanString ?s)) = Fin 123456" by simp
  have c2: "cleanString (ascii ''$abc.def'') = [36, 97, 98, 99, 46, 100, 101, 102]"
    by (simp add: cleanString_def isWhiteSpace_def ascii_dollar)
  have s2: "\<not> startsWithNumber (cleanString (ascii ''$abc.def''))"
    by (simp add: c2 startsWithNumber_def takeSign_def ascii_Infinity isDigit_def)
  from parseMoneyString_result [of ?s] s1 v
  have r1: "parseMoneyString ?s = Inr (Fin 123456)" by simp
  from parseMoneyString_result [of "ascii ''$abc.def''"] s2
  have r2: "parseMoneyString (ascii ''$abc.def'') = Inl InvalidMoneyFormat" by blast
  from s1 r1 s2 r2 show ?thesis by blast
qed

end
